theory Spec2Isabelle
  imports Main
begin

section \<open>The chat relay of server.js\<close>

text \<open>
  The server keeps three process-wide dictionaries (\<open>teams\<close>, \<open>roomMessages\<close>,
  \<open>roomUserCounts\<close>) and, per socket.io connection, the two attributes
  \<open>socket.teamCode\<close> and \<open>socket.userName\<close>. Every handler runs to completion on the
  single event loop, so a handler is a function from the state before to the state after,
  together with the list of what it emitted.

  Strings are lists of 7-bit ASCII characters. Event payload fields are optional strings
  (\<open>None\<close> is JavaScript's \<open>undefined\<close>), so \<open>String(x)\<close> is the identity on them.
  The dictionaries are only ever indexed with upper-cased keys, which cannot name a
  property inherited from \<open>Object.prototype\<close>; a finite map is therefore exact.

  An acknowledgment is listed among the emissions as the value the \<open>ack\<close> callback
  gets; a client that passed no callback does not see it. \<open>emit\<close> sends the value its
  argument has at the call. Instants (\<open>createdAt\<close>, \<open>ts\<close>) are kept as numbers rather
  than ISO strings, and the copy of \<open>teams\<close> written to disk is left out: no handler
  reads it back.
\<close>

subsection \<open>JavaScript strings and truthiness\<close>

definition truthy :: "string option \<Rightarrow> bool" where
  "truthy v = (case v of None \<Rightarrow> False | Some s \<Rightarrow> s \<noteq> [])"

definition is_space :: "char \<Rightarrow> bool" where
  "is_space c = (c \<in> set [CHR 0x09, CHR 0x0A, CHR 0x0B, CHR 0x0C, CHR 0x0D, CHR '' ''])"

definition trim :: "string \<Rightarrow> string" where
  "trim s = rev (dropWhile is_space (rev (dropWhile is_space s)))"

definition upper_char :: "char \<Rightarrow> char" where
  "upper_char c =
     (case map_of (zip ''abcdefghijklmnopqrstuvwxyz'' ''ABCDEFGHIJKLMNOPQRSTUVWXYZ'') c of
        None \<Rightarrow> c
      | Some u \<Rightarrow> u)"

definition toUpperCase :: "string \<Rightarrow> string" where
  "toUpperCase s = map upper_char s"

text \<open>Number-to-string conversion of a non-negative integer, as \<open>'' + n\<close> gives it.\<close>

definition digit :: "nat \<Rightarrow> char" where
  "digit d = ''0123456789'' ! d"

fun dec :: "nat \<Rightarrow> string" where
  "dec n = (if n < 10 then [digit n] else dec (n div 10) @ [digit (n mod 10)])"

declare dec.simps [simp del]

subsection \<open>Data\<close>

type_synonym conn = nat

record team =
  createdAt :: nat

record message =
  msg_id :: string
  msg_system :: bool
  msg_name :: "string option"
  msg_text :: string
  msg_ts :: nat

record socket =
  rooms :: "string set"
  teamCode :: "string option"
  userName :: "string option"

record server =
  teams :: "string \<rightharpoonup> team"
  roomMessages :: "string \<rightharpoonup> message list"
  roomUserCounts :: "string \<rightharpoonup> int"
  sockets :: "conn \<rightharpoonup> socket"

text \<open>
  What a handler reads from its environment: \<open>Date.now()\<close>, the entropy behind one
  \<open>Math.random()\<close> call, and the instant \<open>new Date()\<close> gives for the \<open>ts\<close> field.
  \<open>Math.random()\<close> lies in \<open>[0, 1)\<close>, so \<open>Math.floor(Math.random() * k)\<close> is an index
  below \<open>k\<close>: the entropy reduced modulo \<open>k\<close>.
\<close>

record env =
  date_now :: nat
  random :: nat
  date_iso :: nat

text \<open>
  The error strings of the acknowledgments, under the names of the error taxonomy:
  \<open>Missing teamCode or name\<close> is \<open>MissingField\<close>, \<open>Team code not found\<close> is
  \<open>UnknownTeam\<close>, \<open>You are not in a room\<close> (send) and \<open>Not in room\<close> (delete) are
  \<open>NotJoined\<close>, \<open>Empty message\<close> is \<open>EmptyMessage\<close>, \<open>No id\<close> is \<open>MissingId\<close> and
  \<open>Message not found\<close> is \<open>NotFound\<close>. The answers of \<open>/create-team\<close> are the new
  code or status 409.
\<close>

datatype error =
  MissingField | UnknownTeam | NotJoined | EmptyMessage | MissingId | NotFound

datatype ack = AckOk | AckErr error

datatype emitted =
  RoomHistory "message list" | Message message | DeleteNotice string

datatype out =
  ToSocket conn emitted | ToRoom string emitted | Ack conn ack

datatype response = Created string | Conflict

subsection \<open>The team registry\<close>

definition chars :: string where
  "chars = ''ABCDEFGHJKLMNPQRSTUVWXYZ23456789''"

text \<open>
  \<open>makeTeamCode len rs k\<close> draws \<open>len\<close> characters, reading the entropy sequence \<open>rs\<close>
  from position \<open>k\<close> on, and returns the code with the next position.
\<close>

fun makeTeamCode :: "nat \<Rightarrow> (nat \<Rightarrow> nat) \<Rightarrow> nat \<Rightarrow> string \<times> nat" where
  "makeTeamCode 0 rs k = ([], k)"
| "makeTeamCode (Suc len) rs k =
     (let c = chars ! (rs k mod length chars);
          (code, k') = makeTeamCode len rs (Suc k)
      in (c # code, k'))"

text \<open>
  The retry loop \<open>while (!customCode && teams[code]) code = makeTeamCode(6)\<close>. It has no
  bound: when every draw collides it never returns, which is the value \<open>None\<close>.
\<close>

partial_function (option) retry :: "(string \<rightharpoonup> team) \<Rightarrow> (nat \<Rightarrow> nat) \<Rightarrow> nat \<Rightarrow> string \<Rightarrow> string option" where
  "retry T rs k code =
     (if T code \<noteq> None
      then (case makeTeamCode 6 rs k of (code', k') \<Rightarrow> retry T rs k' code')
      else Some code)"

definition norm_custom :: "string option \<Rightarrow> string option" where
  "norm_custom customCode =
     (if truthy customCode then Some (toUpperCase (trim (the customCode))) else customCode)"

definition create_team :: "(nat \<Rightarrow> nat) \<Rightarrow> nat \<Rightarrow> string option \<Rightarrow> server \<Rightarrow> (response \<times> server) option" where
  "create_team rs now customCode st =
     (let custom = norm_custom customCode in
      if truthy custom then
        (if teams st (the custom) \<noteq> None then Some (Conflict, st)
         else Some (Created (the custom),
                    st\<lparr>teams := (teams st)(the custom \<mapsto> \<lparr>createdAt = now\<rparr>)\<rparr>))
      else
        (case makeTeamCode 6 rs 0 of (code0, k) \<Rightarrow>
           (case retry (teams st) rs k code0 of
              None \<Rightarrow> None
            | Some code \<Rightarrow>
                Some (Created code, st\<lparr>teams := (teams st)(code \<mapsto> \<lparr>createdAt = now\<rparr>)\<rparr>))))"

subsection \<open>The connection handlers\<close>

definition sys_id :: "env \<Rightarrow> string" where
  "sys_id e = ''sys-'' @ dec (date_now e) @ ''-'' @ dec (random e mod 1000)"

definition chat_id :: "env \<Rightarrow> string" where
  "chat_id e = ''m-'' @ dec (date_now e) @ ''-'' @ dec (random e mod 10000)"

definition joinNotice :: "env \<Rightarrow> string \<Rightarrow> message" where
  "joinNotice e nm =
     \<lparr>msg_id = sys_id e, msg_system = True, msg_name = None,
      msg_text = nm @ '' joined the chat'', msg_ts = date_iso e\<rparr>"

definition leaveNotice :: "env \<Rightarrow> string option \<Rightarrow> message" where
  "leaveNotice e nm =
     \<lparr>msg_id = sys_id e, msg_system = True, msg_name = None,
      msg_text = (if truthy nm then the nm else ''A user'') @ '' left the chat'',
      msg_ts = date_iso e\<rparr>"

definition chat_msg :: "env \<Rightarrow> string \<Rightarrow> string \<Rightarrow> message" where
  "chat_msg e nm txt =
     \<lparr>msg_id = chat_id e, msg_system = False, msg_name = Some nm,
      msg_text = txt, msg_ts = date_iso e\<rparr>"

text \<open>\<open>x || d\<close> on a number that may be \<open>undefined\<close>: zero is falsy too.\<close>

definition num_or :: "int option \<Rightarrow> int \<Rightarrow> int" where
  "num_or v d = (case v of None \<Rightarrow> d | Some n \<Rightarrow> if n = 0 then d else n)"

text \<open>A room's log read as a sequence: \<open>roomMessages[code] || []\<close>.\<close>

definition room_log :: "server \<Rightarrow> string \<Rightarrow> message list" where
  "room_log st code = (case roomMessages st code of None \<Rightarrow> [] | Some ms \<Rightarrow> ms)"

text \<open>A room's member count read as a number: \<open>roomUserCounts[code] || 0\<close>.\<close>

definition memberCount :: "server \<Rightarrow> string \<Rightarrow> int" where
  "memberCount st code = num_or (roomUserCounts st code) 0"

text \<open>
  \<open>io.on('connection', ...)\<close> registers the handlers on a new socket, which has neither
  team code nor user name and is in no room. A handler runs only for an open connection:
  on a connection that is not open, each function below returns the state as it is and
  emits nothing.
\<close>

definition connect :: "conn \<Rightarrow> server \<Rightarrow> server \<times> out list" where
  "connect c st =
     (case sockets st c of
        Some s \<Rightarrow> (st, [])
      | None \<Rightarrow>
          (st\<lparr>sockets := (sockets st)(c \<mapsto> \<lparr>rooms = {}, teamCode = None, userName = None\<rparr>)\<rparr>, []))"

definition join_room :: "env \<Rightarrow> conn \<Rightarrow> string option \<Rightarrow> string option \<Rightarrow> server \<Rightarrow> server \<times> out list" where
  "join_room e c tc nm st =
     (case sockets st c of
        None \<Rightarrow> (st, [])
      | Some s \<Rightarrow>
          if \<not> truthy tc \<or> \<not> truthy nm then (st, [Ack c (AckErr MissingField)])
          else
            let code = toUpperCase (trim (the tc));
                name = take 50 (trim (the nm))
            in if teams st code = None then (st, [Ack c (AckErr UnknownTeam)])
               else
                 let s' = s\<lparr>rooms := insert code (rooms s), teamCode := Some code,
                            userName := Some name\<rparr>;
                     history = room_log st code;
                     notice = joinNotice e name
                 in (st\<lparr>sockets := (sockets st)(c \<mapsto> s'),
                        roomUserCounts :=
                          (roomUserCounts st)(code \<mapsto> num_or (roomUserCounts st code) 0 + 1),
                        roomMessages := (roomMessages st)(code \<mapsto> history @ [notice])\<rparr>,
                     [ToSocket c (RoomHistory history), ToRoom code (Message notice),
                      Ack c AckOk]))"

definition send_message :: "env \<Rightarrow> conn \<Rightarrow> string option \<Rightarrow> server \<Rightarrow> server \<times> out list" where
  "send_message e c payload_text st =
     (case sockets st c of
        None \<Rightarrow> (st, [])
      | Some s \<Rightarrow>
          if \<not> truthy (teamCode s) \<or> \<not> truthy (userName s)
          then (st, [Ack c (AckErr NotJoined)])
          else
            let code = the (teamCode s);
                txt = trim (if truthy payload_text then the payload_text else [])
            in if txt = [] then (st, [Ack c (AckErr EmptyMessage)])
               else
                 let msg = chat_msg e (the (userName s)) txt
                 in (st\<lparr>roomMessages := (roomMessages st)(code \<mapsto> room_log st code @ [msg])\<rparr>,
                     [ToRoom code (Message msg), Ack c AckOk]))"

text \<open>\<open>findIndex\<close>, with \<open>None\<close> for JavaScript's \<open>-1\<close>, and \<open>splice(idx, 1)\<close>.\<close>

fun findIndex :: "('a \<Rightarrow> bool) \<Rightarrow> 'a list \<Rightarrow> nat option" where
  "findIndex p [] = None"
| "findIndex p (x # xs) =
     (if p x then Some 0 else map_option Suc (findIndex p xs))"

definition splice1 :: "nat \<Rightarrow> 'a list \<Rightarrow> 'a list" where
  "splice1 idx xs = take idx xs @ drop (Suc idx) xs"

definition delete_message :: "conn \<Rightarrow> string option \<Rightarrow> server \<Rightarrow> server \<times> out list" where
  "delete_message c i st =
     (case sockets st c of
        None \<Rightarrow> (st, [])
      | Some s \<Rightarrow>
          if \<not> truthy (teamCode s) then (st, [Ack c (AckErr NotJoined)])
          else if \<not> truthy i then (st, [Ack c (AckErr MissingId)])
          else
            let code = the (teamCode s);
                arr = room_log st code;
                st1 = st\<lparr>roomMessages := (roomMessages st)(code \<mapsto> arr)\<rparr>
            in (case findIndex (\<lambda>m. msg_id m = the i) arr of
                  None \<Rightarrow> (st1, [Ack c (AckErr NotFound)])
                | Some idx \<Rightarrow>
                    (st\<lparr>roomMessages := (roomMessages st)(code \<mapsto> splice1 idx arr)\<rparr>,
                     [ToRoom code (DeleteNotice (the i)), Ack c AckOk])))"

text \<open>
  socket.io takes a closing socket out of all its rooms before the \<open>disconnect\<close>
  handler runs; afterwards the connection is gone.
\<close>

definition disconnect :: "env \<Rightarrow> conn \<Rightarrow> server \<Rightarrow> server \<times> out list" where
  "disconnect e c st =
     (case sockets st c of
        None \<Rightarrow> (st, [])
      | Some s \<Rightarrow>
          let st0 = st\<lparr>sockets := (sockets st)(c := None)\<rparr> in
          if \<not> truthy (teamCode s) then (st0, [])
          else
            let code = the (teamCode s);
                n = max 0 (num_or (roomUserCounts st code) 1 - 1);
                notice = leaveNotice e (userName s)
            in if n > 0
               then (st0\<lparr>roomUserCounts := (roomUserCounts st)(code \<mapsto> n),
                         roomMessages := (roomMessages st)(code \<mapsto> room_log st code @ [notice])\<rparr>,
                     [ToRoom code (Message notice)])
               else (st0\<lparr>roomUserCounts := (roomUserCounts st)(code \<mapsto> n),
                         roomMessages := (roomMessages st)(code := None)\<rparr>,
                     []))"

text \<open>Who receives an emission: \<open>socket.emit\<close> reaches the socket itself,
  \<open>io.to(room).emit\<close> every open socket that has joined the room.\<close>

fun receives :: "server \<Rightarrow> conn \<Rightarrow> out \<Rightarrow> bool" where
  "receives st c (ToSocket c' ev) = (c = c')"
| "receives st c (Ack c' a) = (c = c')"
| "receives st c (ToRoom code ev) =
     (case sockets st c of None \<Rightarrow> False | Some s \<Rightarrow> code \<in> rooms s)"

subsection \<open>Events and runs\<close>

text \<open>
  One event is one request or one socket event, with what its handler reads from the
  clock and from \<open>Math.random()\<close>. A run processes a list of events in order, as the
  event loop does; it has no final state when a \<open>/create-team\<close> request in it never
  returns.
\<close>

datatype event =
    CreateTeam "nat \<Rightarrow> nat" nat "string option"
  | Connect conn
  | JoinRoom env conn "string option" "string option"
  | SendMessage env conn "string option"
  | DeleteMessage conn "string option"
  | Disconnect env conn

fun step :: "event \<Rightarrow> server \<Rightarrow> (server \<times> out list) option" where
  "step (CreateTeam rs now customCode) st =
     map_option (\<lambda>(r, st'). (st', [])) (create_team rs now customCode st)"
| "step (Connect c) st = Some (connect c st)"
| "step (JoinRoom e c tc nm) st = Some (join_room e c tc nm st)"
| "step (SendMessage e c t) st = Some (send_message e c t st)"
| "step (DeleteMessage c i) st = Some (delete_message c i st)"
| "step (Disconnect e c) st = Some (disconnect e c st)"

fun run :: "server \<Rightarrow> event list \<Rightarrow> server option" where
  "run st [] = Some st"
| "run st (ev # evs) =
     (case step ev st of None \<Rightarrow> None | Some (st', outs) \<Rightarrow> run st' evs)"

definition init :: "(string \<rightharpoonup> team) \<Rightarrow> server" where
  "init T = \<lparr>teams = T, roomMessages = Map.empty, roomUserCounts = Map.empty,
             sockets = Map.empty\<rparr>"

text \<open>The sessions currently attached to a room: the open sockets whose
  \<open>teamCode\<close> is the room's code.\<close>

definition attached :: "server \<Rightarrow> string \<Rightarrow> conn set" where
  "attached st code = {c. \<exists>s. sockets st c = Some s \<and> teamCode s = Some code}"

subsection \<open>Stamps\<close>

text \<open>
  A message-creating event stamps its message with a prefix (\<open>sys-\<close> for a notice,
  \<open>m-\<close> for a chat message), \<open>Date.now()\<close> and a random suffix. \<open>stamp\<close> gives the
  stamp an event would use (no stamp for the events that create no message), and
  \<open>stamp_id\<close> the id string built from it.
\<close>

fun stamp :: "event \<Rightarrow> (bool \<times> nat \<times> nat) list" where
  "stamp (JoinRoom e c tc nm) = [(True, date_now e, random e mod 1000)]"
| "stamp (Disconnect e c) = [(True, date_now e, random e mod 1000)]"
| "stamp (SendMessage e c t) = [(False, date_now e, random e mod 10000)]"
| "stamp (CreateTeam rs now customCode) = []"
| "stamp (Connect c) = []"
| "stamp (DeleteMessage c i) = []"

definition stamps :: "event list \<Rightarrow> (bool \<times> nat \<times> nat) list" where
  "stamps evs = concat (map stamp evs)"

fun stamp_id :: "bool \<times> nat \<times> nat \<Rightarrow> string" where
  "stamp_id (sys, t, r) = (if sys then ''sys-'' else ''m-'') @ dec t @ ''-'' @ dec r"

text \<open>Reading a decimal numeral back, the inverse of \<open>dec\<close>.\<close>

definition digit_val :: "char \<Rightarrow> nat" where
  "digit_val c = of_char c - 48"

definition undec :: "string \<Rightarrow> nat" where
  "undec s = foldl (\<lambda>a c. 10 * a + digit_val c) 0 s"

subsection \<open>Concrete runs\<close>

definition env0 :: env where
  "env0 = \<lparr>date_now = 5, random = 7, date_iso = 5\<rparr>"

definition env1 :: env where
  "env1 = \<lparr>date_now = 6, random = 1008, date_iso = 6\<rparr>"

definition demo_teams :: "string \<rightharpoonup> team" where
  "demo_teams = [''ROOM1'' \<mapsto> \<lparr>createdAt = 0\<rparr>, ''ROOM2'' \<mapsto> \<lparr>createdAt = 1\<rparr>]"

definition sock0 :: socket where
  "sock0 = \<lparr>rooms = {}, teamCode = None, userName = None\<rparr>"

text \<open>One connection open, nobody joined.\<close>

definition st_open :: server where
  "st_open = \<lparr>teams = demo_teams, roomMessages = Map.empty, roomUserCounts = Map.empty,
              sockets = [1 \<mapsto> sock0]\<rparr>"

definition ann_sock :: socket where
  "ann_sock = \<lparr>rooms = {''ROOM1''}, teamCode = Some ''ROOM1'', userName = Some ''Ann''\<rparr>"

definition bob_sock :: socket where
  "bob_sock = \<lparr>rooms = {''ROOM1''}, teamCode = Some ''ROOM1'', userName = Some ''Bob''\<rparr>"

text \<open>Connections 1 and 2 open; connection 1 has joined ROOM1 as Ann.\<close>

definition st_ann :: server where
  "st_ann = \<lparr>teams = demo_teams,
             roomMessages = [''ROOM1'' \<mapsto> [joinNotice env0 ''Ann'']],
             roomUserCounts = [''ROOM1'' \<mapsto> 1],
             sockets = [1 \<mapsto> ann_sock, 2 \<mapsto> sock0]\<rparr>"

text \<open>Ann (connection 1) and Bob (connection 2) are in ROOM1 and Ann has said hi.\<close>

definition st_chat :: server where
  "st_chat = \<lparr>teams = demo_teams,
              roomMessages = [''ROOM1'' \<mapsto>
                [joinNotice env0 ''Ann'', joinNotice env1 ''Bob'', chat_msg env1 ''Ann'' ''hi'']],
              roomUserCounts = [''ROOM1'' \<mapsto> 2],
              sockets = [1 \<mapsto> ann_sock, 2 \<mapsto> bob_sock]\<rparr>"

text \<open>Ann has sent two messages within the same millisecond, with the same random suffix.\<close>

definition st_dup :: server where
  "st_dup = \<lparr>teams = demo_teams,
             roomMessages = [''ROOM1'' \<mapsto>
               [joinNotice env0 ''Ann'', chat_msg env1 ''Ann'' ''a'', chat_msg env1 ''Ann'' ''b'']],
             roomUserCounts = [''ROOM1'' \<mapsto> 1],
             sockets = [1 \<mapsto> ann_sock, 2 \<mapsto> sock0]\<rparr>"

text \<open>Connection 1, already in ROOM1, has joined ROOM2 as well.\<close>

definition moved_sock :: socket where
  "moved_sock = \<lparr>rooms = {''ROOM2'', ''ROOM1''}, teamCode = Some ''ROOM2'',
                  userName = Some ''Ann''\<rparr>"

definition st_moved :: server where
  "st_moved = \<lparr>teams = demo_teams,
               roomMessages = [''ROOM1'' \<mapsto> [joinNotice env0 ''Ann''],
                               ''ROOM2'' \<mapsto> [joinNotice env1 ''Ann'']],
               roomUserCounts = [''ROOM1'' \<mapsto> 1, ''ROOM2'' \<mapsto> 1],
               sockets = [1 \<mapsto> moved_sock, 2 \<mapsto> sock0]\<rparr>"

text \<open>Then connection 1 has closed.\<close>

definition st_gone :: server where
  "st_gone = \<lparr>teams = demo_teams,
              roomMessages = [''ROOM1'' \<mapsto> [joinNotice env0 ''Ann'']],
              roomUserCounts = [''ROOM1'' \<mapsto> 1, ''ROOM2'' \<mapsto> 0],
              sockets = [2 \<mapsto> sock0]\<rparr>"

text \<open>Connection 1 has joined ROOM1 under a name of one space.\<close>

definition blank_sock :: socket where
  "blank_sock = \<lparr>rooms = {''ROOM1''}, teamCode = Some ''ROOM1'', userName = Some []\<rparr>"

definition st_blank :: server where
  "st_blank = \<lparr>teams = demo_teams,
               roomMessages = [''ROOM1'' \<mapsto> [joinNotice env0 []]],
               roomUserCounts = [''ROOM1'' \<mapsto> 1],
               sockets = [1 \<mapsto> blank_sock]\<rparr>"

text \<open>Connection 1 has joined ROOM1 twice.\<close>

definition env2 :: env where
  "env2 = \<lparr>date_now = 7, random = 3, date_iso = 7\<rparr>"

definition st_twice :: server where
  "st_twice = \<lparr>teams = demo_teams,
               roomMessages = [''ROOM1'' \<mapsto> [joinNotice env0 ''Ann'', joinNotice env1 ''Ann'']],
               roomUserCounts = [''ROOM1'' \<mapsto> 2],
               sockets = [1 \<mapsto> ann_sock, 2 \<mapsto> sock0]\<rparr>"

text \<open>Then connection 1 has closed.\<close>

definition st_left :: server where
  "st_left = \<lparr>teams = demo_teams,
              roomMessages = [''ROOM1'' \<mapsto>
                [joinNotice env0 ''Ann'', joinNotice env1 ''Ann'', leaveNotice env2 (Some ''Ann'')]],
              roomUserCounts = [''ROOM1'' \<mapsto> 1],
              sockets = [2 \<mapsto> sock0]\<rparr>"

subsection \<open>Runs in which no socket joins twice\<close>

text \<open>\<open>fresh_join ev st\<close>: if \<open>ev\<close> is a \<open>join-room\<close> event, its socket has no team
  code yet in \<open>st\<close>. \<open>single_join st evs\<close>: this holds for every event of the run
  \<open>evs\<close> started in \<open>st\<close>.\<close>

fun fresh_join :: "event \<Rightarrow> server \<Rightarrow> bool" where
  "fresh_join (JoinRoom e c tc nm) st =
     (case sockets st c of None \<Rightarrow> True | Some s \<Rightarrow> teamCode s = None)"
| "fresh_join (CreateTeam rs now customCode) st = True"
| "fresh_join (Connect c) st = True"
| "fresh_join (SendMessage e c t) st = True"
| "fresh_join (DeleteMessage c i) st = True"
| "fresh_join (Disconnect e c) st = True"

fun single_join :: "server \<Rightarrow> event list \<Rightarrow> bool" where
  "single_join st [] = True"
| "single_join st (ev # evs) =
     (fresh_join ev st \<and>
      (case step ev st of None \<Rightarrow> True | Some (st', outs) \<Rightarrow> single_join st' evs))"

text \<open>The bookkeeping is exact: finitely many sockets, no empty team code, and every
  room's count is the number of sockets attached to it.\<close>

definition counted :: "server \<Rightarrow> bool" where
  "counted st =
     (finite (dom (sockets st)) \<and> teams st [] = None \<and>
      (\<forall>c s. sockets st c = Some s \<longrightarrow> teamCode s \<noteq> Some []) \<and>
      (\<forall>code. memberCount st code = int (card (attached st code))))"

section \<open>Properties\<close>

subsection \<open>Auxiliary facts\<close>

lemma truthy_Some: "truthy (Some s) = (s \<noteq> [])"
  by (simp add: truthy_def)

lemma truthy_None: "\<not> truthy None"
  by (simp add: truthy_def)

lemma truthy_the: "truthy v \<Longrightarrow> v = Some (the v) \<and> the v \<noteq> []"
  by (cases v) (simp_all add: truthy_def)

lemma length_chars: "length chars = 32"
  by (simp add: chars_def)

lemma makeTeamCode_eq:
  "makeTeamCode len rs k =
     (map (\<lambda>i. chars ! (rs (k + i) mod length chars)) [0..<len], k + len)"
proof (induction len arbitrary: k)
  case 0
  show ?case by simp
next
  case (Suc len)
  have "[0..<Suc len] = 0 # [Suc 0..<Suc len]"
    by (rule upt_conv_Cons) simp
  then have "[0..<Suc len] = 0 # map Suc [0..<len]"
    by (simp only: map_Suc_upt)
  then show ?case
    by (simp add: Suc.IH o_def del: upt_Suc)
qed

lemma makeTeamCode_length: "length (fst (makeTeamCode len rs k)) = len"
  by (simp add: makeTeamCode_eq)

lemma makeTeamCode_chars: "set (fst (makeTeamCode len rs k)) \<subseteq> set chars"
  by (auto simp: makeTeamCode_eq length_chars intro!: nth_mem)

lemma makeTeamCode_snd: "snd (makeTeamCode len rs k) = k + len"
  by (simp add: makeTeamCode_eq)

lemma upt_6: "[0..<6] = [0, 1, 2, 3, 4, 5]"
  by (simp add: upt_rec)

text \<open>What the retry loop returns, when it returns: a code the registry does not hold,
  which is the code it started from or one of the later draws.\<close>

lemma retry_Some:
  assumes "retry T rs k code = Some c"
  shows "T c = None \<and> (c = code \<or> (\<exists>j. c = fst (makeTeamCode 6 rs j)))"
proof (rule retry.raw_induct
    [where P = "\<lambda>T rs k code c. T c = None \<and> (c = code \<or> (\<exists>j. c = fst (makeTeamCode 6 rs j)))",
      OF _ assms])
  fix retry' :: "(string \<rightharpoonup> team) \<Rightarrow> (nat \<Rightarrow> nat) \<Rightarrow> nat \<Rightarrow> string \<Rightarrow> string option"
    and T rs k code c
  assume IH: "\<And>T rs k code c. retry' T rs k code = Some c \<Longrightarrow>
      T c = None \<and> (c = code \<or> (\<exists>j. c = fst (makeTeamCode 6 rs j)))"
    and eq: "(if T code \<noteq> None
        then case makeTeamCode 6 rs k of (code', k') \<Rightarrow> retry' T rs k' code'
        else Some code) = Some c"
  show "T c = None \<and> (c = code \<or> (\<exists>j. c = fst (makeTeamCode 6 rs j)))"
  proof (cases "T code = None")
    case True
    with eq show ?thesis by simp
  next
    case False
    obtain code' k' where mk: "makeTeamCode 6 rs k = (code', k')"
      by (cases "makeTeamCode 6 rs k")
    with False eq have "retry' T rs k' code' = Some c"
      by simp
    from IH [OF this] have "T c = None" and "c = code' \<or> (\<exists>j. c = fst (makeTeamCode 6 rs j))"
      by simp_all
    moreover have "code' = fst (makeTeamCode 6 rs k)"
      using mk by simp
    ultimately show ?thesis by blast
  qed
qed

text \<open>The loop returns as soon as one of the draws still to come is not in the registry.\<close>

lemma retry_terminates:
  "T (fst (makeTeamCode 6 rs (k + 6 * n))) = None \<Longrightarrow> \<exists>c. retry T rs k code = Some c"
proof (induction n arbitrary: k code)
  case 0
  obtain code' where mk: "makeTeamCode 6 rs k = (code', k + 6)"
    by (cases "makeTeamCode 6 rs k") (use makeTeamCode_snd [of 6 rs k] in simp)
  with 0 have "T code' = None" by simp
  then have "retry T rs (k + 6) code' = Some code'"
    by (subst retry.simps) simp
  with mk show ?case
    by (subst retry.simps) simp
next
  case (Suc n)
  obtain code' where mk: "makeTeamCode 6 rs k = (code', k + 6)"
    by (cases "makeTeamCode 6 rs k") (use makeTeamCode_snd [of 6 rs k] in simp)
  have "(k + 6) + 6 * n = k + 6 * Suc n"
    by simp
  with Suc.prems have "T (fst (makeTeamCode 6 rs ((k + 6) + 6 * n))) = None"
    by (simp only:)
  from Suc.IH [OF this] obtain c where "retry T rs (k + 6) code' = Some c"
    by blast
  with mk show ?case
    by (subst retry.simps) simp
qed

lemma create_team_returns:
  assumes "teams st (fst (makeTeamCode 6 rs (6 * n))) = None"
  shows "\<exists>r st'. create_team rs now customCode st = Some (r, st')"
proof (cases "truthy (norm_custom customCode)")
  case True
  then show ?thesis by (simp add: create_team_def Let_def)
next
  case False
  obtain code0 where mk: "makeTeamCode 6 rs 0 = (code0, 6)"
    by (cases "makeTeamCode 6 rs 0") (use makeTeamCode_snd [of 6 rs 0] in simp)
  have "\<exists>c. retry (teams st) rs 6 code0 = Some c"
  proof (cases n)
    case 0
    with assms mk have "teams st code0 = None" by simp
    then show ?thesis by (subst retry.simps) simp
  next
    case (Suc m)
    then have "6 + 6 * m = 6 * n" by simp
    with assms have "teams st (fst (makeTeamCode 6 rs (6 + 6 * m))) = None"
      by (simp only:)
    then show ?thesis by (rule retry_terminates)
  qed
  then obtain c where "retry (teams st) rs 6 code0 = Some c" by blast
  with False mk show ?thesis by (simp add: create_team_def Let_def)
qed

lemma findIndex_None: "findIndex p xs = None \<longleftrightarrow> (\<forall>x\<in>set xs. \<not> p x)"
  by (induction xs) auto

lemma findIndex_Some:
  "findIndex p xs = Some idx \<Longrightarrow>
     \<exists>pre x post. xs = pre @ x # post \<and> p x \<and> (\<forall>y\<in>set pre. \<not> p y) \<and> length pre = idx"
proof (induction xs arbitrary: idx)
  case Nil
  then show ?case by simp
next
  case (Cons a xs)
  show ?case
  proof (cases "p a")
    case True
    with Cons.prems have "idx = 0" by simp
    with True show ?thesis by (intro exI [of _ "[]"]) auto
  next
    case False
    with Cons.prems obtain j where j: "findIndex p xs = Some j" "idx = Suc j"
      by auto
    from Cons.IH [OF j(1)] obtain pre x post where
      "xs = pre @ x # post" "p x" "\<forall>y\<in>set pre. \<not> p y" "length pre = j"
      by blast
    with False j(2) show ?thesis
      by (intro exI [of _ "a # pre"] exI [of _ x] exI [of _ post]) auto
  qed
qed

lemma splice1_append: "splice1 (length pre) (pre @ x # post) = pre @ post"
  by (simp add: splice1_def)

text \<open>Evaluating the handlers on literal inputs.\<close>

lemmas string_evals = truthy_def toUpperCase_def trim_def is_space_def upper_char_def

lemmas handler_evals =
  connect_def join_room_def send_message_def delete_message_def disconnect_def
  room_log_def num_or_def memberCount_def Let_def

lemmas id_evals = joinNotice_def leaveNotice_def chat_msg_def sys_id_def chat_id_def
  dec.simps digit_def

lemma st_open_reached: "run (init demo_teams) [Connect 1] = Some st_open"
  by (simp add: init_def st_open_def connect_def sock0_def)

lemma st_ann_reached:
  "run (init demo_teams) [Connect 1, Connect 2, JoinRoom env0 1 (Some '' room1'') (Some ''Ann '')]
     = Some st_ann"
  by (simp add: init_def st_ann_def sock0_def ann_sock_def demo_teams_def handler_evals
      string_evals fun_upd_twist)

lemma st_chat_reached:
  "run st_ann [JoinRoom env1 2 (Some ''ROOM1'') (Some ''Bob''),
               SendMessage env1 1 (Some '' hi '')] = Some st_chat"
  by (simp add: st_ann_def st_chat_def sock0_def ann_sock_def bob_sock_def demo_teams_def
      handler_evals string_evals fun_upd_twist)

lemma delete_message_found:
  assumes "sockets st c = Some s" and "truthy (teamCode s)" and "code = the (teamCode s)"
    and "i \<noteq> []" and "m \<in> set (room_log st code)" and "msg_id m = i"
  shows "\<exists>pre x post.
           room_log st code = pre @ x # post \<and> msg_id x = i \<and>
           (\<forall>y\<in>set pre. msg_id y \<noteq> i) \<and>
           delete_message c (Some i) st =
             (st\<lparr>roomMessages := (roomMessages st)(code \<mapsto> pre @ post)\<rparr>,
              [ToRoom code (DeleteNotice i), Ack c AckOk])"
proof -
  from assms(5,6) have "findIndex (\<lambda>m. msg_id m = i) (room_log st code) \<noteq> None"
    by (auto simp: findIndex_None)
  then obtain idx where idx: "findIndex (\<lambda>m. msg_id m = i) (room_log st code) = Some idx"
    by blast
  from findIndex_Some [OF idx] obtain pre x post where
    sp: "room_log st code = pre @ x # post" "msg_id x = i"
      "\<forall>y\<in>set pre. msg_id y \<noteq> i" "length pre = idx"
    by blast
  have "splice1 idx (room_log st code) = pre @ post"
    using sp(1,4) splice1_append [of pre x post] by simp
  then have "delete_message c (Some i) st =
      (st\<lparr>roomMessages := (roomMessages st)(code \<mapsto> pre @ post)\<rparr>,
       [ToRoom code (DeleteNotice i), Ack c AckOk])"
    using assms(1-4) idx by (simp add: delete_message_def Let_def truthy_Some)
  with sp show ?thesis by blast
qed

lemma delete_message_not_found:
  assumes "sockets st c = Some s" and "truthy (teamCode s)" and "code = the (teamCode s)"
    and "i \<noteq> []" and "\<forall>m\<in>set (room_log st code). msg_id m \<noteq> i"
  shows "delete_message c (Some i) st =
           (st\<lparr>roomMessages := (roomMessages st)(code \<mapsto> room_log st code)\<rparr>,
            [Ack c (AckErr NotFound)])"
proof -
  from assms(5) have "findIndex (\<lambda>m. msg_id m = i) (room_log st code) = None"
    by (simp add: findIndex_None)
  with assms(1-4) show ?thesis
    by (simp add: delete_message_def Let_def truthy_Some)
qed

lemma room_log_refresh:
  "room_log (st\<lparr>roomMessages := (roomMessages st)(code \<mapsto> room_log st code)\<rparr>) = room_log st"
  by (rule ext) (simp add: room_log_def)

subsection \<open>Failing joins\<close>

text \<open>
  Claim C4. On an open connection, \<open>join-room\<close> is refused with \<open>MissingField\<close>
  (\<open>Missing teamCode or name\<close>) whenever the team code or the name is absent or empty,
  and, both being there, with \<open>UnknownTeam\<close> (\<open>Team code not found\<close>) whenever the
  trimmed, upper-cased code is not in the registry. Either way the whole state is the
  one before, so no member count and no log has changed, and the only thing emitted is
  the acknowledgment to the caller: nothing is broadcast.
\<close>

theorem join_room_failures:
  assumes "sockets st c = Some s"
  shows "((\<not> truthy tc \<or> \<not> truthy nm) \<longrightarrow>
            join_room e c tc nm st = (st, [Ack c (AckErr MissingField)])) \<and>
         (truthy tc \<and> truthy nm \<and> teams st (toUpperCase (trim (the tc))) = None \<longrightarrow>
            join_room e c tc nm st = (st, [Ack c (AckErr UnknownTeam)]))"
  using assms by (simp add: join_room_def Let_def)

theorem join_room_failures_witness:
  "sockets st_open 1 = Some sock0 \<and>
   join_room env0 1 (Some ''room1'') (Some []) st_open = (st_open, [Ack 1 (AckErr MissingField)]) \<and>
   join_room env0 1 None (Some ''Ann'') st_open = (st_open, [Ack 1 (AckErr MissingField)]) \<and>
   join_room env0 1 (Some '' room9 '') (Some ''Ann'') st_open
     = (st_open, [Ack 1 (AckErr UnknownTeam)])"
proof -
  have open1: "sockets st_open 1 = Some sock0"
    by (simp add: st_open_def)
  have unknown: "teams st_open (toUpperCase (trim (the (Some '' room9 '')))) = None"
    by (simp add: st_open_def demo_teams_def string_evals)
  show ?thesis
    using join_room_failures [OF open1, of "Some ''room1''" "Some []" env0]
      join_room_failures [OF open1, of None "Some ''Ann''" env0]
      join_room_failures [OF open1, of "Some '' room9 ''" "Some ''Ann''" env0]
      open1 unknown
    by (simp add: truthy_def)
qed

subsection \<open>Deleting a message\<close>

text \<open>
  Claim C6. For a session that has joined a room, \<open>delete-message\<close> is refused with
  \<open>MissingId\<close> when the id is absent or empty, the state staying as it was; it is
  refused with \<open>NotFound\<close> when no message of the caller's room has the id, every room's
  log, every count, the registry and the sockets staying as they were; and when some
  message of the room has the id, the log \<open>pre @ x # post\<close> becomes \<open>pre @ post\<close>,
  where \<open>x\<close> is the first message with that id: exactly one message goes, the others
  keep their order, and the handler emits to the caller's room (\<open>io.to(teamCode)\<close>)
  a delete notice that holds the id alone, then acknowledges.
\<close>

theorem delete_message_cases:
  assumes "sockets st c = Some s" and "truthy (teamCode s)"
    and "code = the (teamCode s)"
  shows "(\<not> truthy i \<longrightarrow> delete_message c i st = (st, [Ack c (AckErr MissingId)])) \<and>
         (truthy i \<and> (\<forall>m\<in>set (room_log st code). msg_id m \<noteq> the i) \<longrightarrow>
            (\<exists>st'. delete_message c i st = (st', [Ack c (AckErr NotFound)]) \<and>
                   room_log st' = room_log st \<and> roomUserCounts st' = roomUserCounts st \<and>
                   teams st' = teams st \<and> sockets st' = sockets st)) \<and>
         (truthy i \<and> (\<exists>m\<in>set (room_log st code). msg_id m = the i) \<longrightarrow>
            (\<exists>pre x post.
               room_log st code = pre @ x # post \<and> msg_id x = the i \<and>
               (\<forall>y\<in>set pre. msg_id y \<noteq> the i) \<and>
               delete_message c i st =
                 (st\<lparr>roomMessages := (roomMessages st)(code \<mapsto> pre @ post)\<rparr>,
                  [ToRoom code (DeleteNotice (the i)), Ack c AckOk])))"
proof (intro conjI impI)
  assume "\<not> truthy i"
  with assms show "delete_message c i st = (st, [Ack c (AckErr MissingId)])"
    by (simp add: delete_message_def)
next
  assume a: "truthy i \<and> (\<forall>m\<in>set (room_log st code). msg_id m \<noteq> the i)"
  then have i: "i = Some (the i)" "the i \<noteq> []"
    using truthy_the [of i] by simp_all
  let ?st' = "st\<lparr>roomMessages := (roomMessages st)(code \<mapsto> room_log st code)\<rparr>"
  have "delete_message c (Some (the i)) st = (?st', [Ack c (AckErr NotFound)])"
    using assms i(2) a by (intro delete_message_not_found) simp_all
  with i(1) have "delete_message c i st = (?st', [Ack c (AckErr NotFound)])"
    by simp
  moreover have "room_log ?st' = room_log st"
    by (rule room_log_refresh)
  ultimately show "\<exists>st'. delete_message c i st = (st', [Ack c (AckErr NotFound)]) \<and>
      room_log st' = room_log st \<and> roomUserCounts st' = roomUserCounts st \<and>
      teams st' = teams st \<and> sockets st' = sockets st"
    by (intro exI [of _ ?st']) simp
next
  assume a: "truthy i \<and> (\<exists>m\<in>set (room_log st code). msg_id m = the i)"
  then have i: "i = Some (the i)" "the i \<noteq> []"
    using truthy_the [of i] by simp_all
  from a obtain m where m: "m \<in> set (room_log st code)" "msg_id m = the i"
    by blast
  from delete_message_found [OF assms i(2) m] i(1)
  show "\<exists>pre x post.
      room_log st code = pre @ x # post \<and> msg_id x = the i \<and>
      (\<forall>y\<in>set pre. msg_id y \<noteq> the i) \<and>
      delete_message c i st =
        (st\<lparr>roomMessages := (roomMessages st)(code \<mapsto> pre @ post)\<rparr>,
         [ToRoom code (DeleteNotice (the i)), Ack c AckOk])"
    by simp
qed

theorem delete_message_cases_witness:
  "sockets st_chat 2 = Some bob_sock \<and> truthy (teamCode bob_sock) \<and>
   ''ROOM1'' = the (teamCode bob_sock) \<and>
   room_log st_chat ''ROOM1'' =
     [joinNotice env0 ''Ann'', joinNotice env1 ''Bob'', chat_msg env1 ''Ann'' ''hi''] \<and>
   delete_message 2 None st_chat = (st_chat, [Ack 2 (AckErr MissingId)]) \<and>
   delete_message 2 (Some ''sys-0-0'') st_chat = (st_chat, [Ack 2 (AckErr NotFound)]) \<and>
   delete_message 2 (Some ''sys-6-8'') st_chat =
     (st_chat\<lparr>roomMessages :=
        [''ROOM1'' \<mapsto> [joinNotice env0 ''Ann'', chat_msg env1 ''Ann'' ''hi'']]\<rparr>,
      [ToRoom ''ROOM1'' (DeleteNotice ''sys-6-8''), Ack 2 AckOk])"
proof -
  have h1: "sockets st_chat 2 = Some bob_sock"
    by (simp add: st_chat_def)
  have h2: "truthy (teamCode bob_sock)"
    by (simp add: bob_sock_def truthy_def)
  have h3: "''ROOM1'' = the (teamCode bob_sock)"
    by (simp add: bob_sock_def)
  have log: "room_log st_chat ''ROOM1'' =
      [joinNotice env0 ''Ann'', joinNotice env1 ''Bob'', chat_msg env1 ''Ann'' ''hi'']"
    by (simp add: st_chat_def room_log_def)
  have d1: "delete_message 2 None st_chat = (st_chat, [Ack 2 (AckErr MissingId)])"
    using delete_message_cases [OF h1 h2 h3, of None] by (simp add: truthy_def)
  have d2: "delete_message 2 (Some ''sys-0-0'') st_chat = (st_chat, [Ack 2 (AckErr NotFound)])"
    using delete_message_cases [OF h1 h2 h3, of "Some ''sys-0-0''"]
    by (simp add: h1 delete_message_def Let_def bob_sock_def truthy_def log
        env0_def env1_def id_evals)
       (simp add: st_chat_def env0_def env1_def id_evals)
  have d3: "delete_message 2 (Some ''sys-6-8'') st_chat =
     (st_chat\<lparr>roomMessages :=
        [''ROOM1'' \<mapsto> [joinNotice env0 ''Ann'', chat_msg env1 ''Ann'' ''hi'']]\<rparr>,
      [ToRoom ''ROOM1'' (DeleteNotice ''sys-6-8''), Ack 2 AckOk])"
    using delete_message_cases [OF h1 h2 h3, of "Some ''sys-6-8''"]
    by (simp add: h1 delete_message_def Let_def bob_sock_def truthy_def log splice1_def
        env0_def env1_def id_evals)
       (simp add: st_chat_def env0_def env1_def id_evals)
  from h1 h2 h3 log d1 d2 d3 show ?thesis by simp
qed

subsection \<open>Creating a team\<close>

lemma norm_custom_truthy:
  "truthy (norm_custom customCode) \<Longrightarrow>
     norm_custom customCode = Some (toUpperCase (trim (the customCode)))"
  by (simp add: norm_custom_def split: if_splits)

lemma create_team_Created:
  assumes "create_team rs now customCode st = Some (Created code, st')"
  shows "teams st code = None \<and> st' = st\<lparr>teams := (teams st)(code \<mapsto> \<lparr>createdAt = now\<rparr>)\<rparr> \<and>
         (if truthy (norm_custom customCode)
          then code = toUpperCase (trim (the customCode)) \<and> code \<noteq> []
          else length code = 6 \<and> set code \<subseteq> set chars)"
proof (cases "truthy (norm_custom customCode)")
  case True
  from norm_custom_truthy [OF True] True have "toUpperCase (trim (the customCode)) \<noteq> []"
    by (simp add: truthy_def)
  with assms True norm_custom_truthy [OF True] show ?thesis
    by (auto simp: create_team_def Let_def split: if_splits)
next
  case False
  obtain code0 k where mk: "makeTeamCode 6 rs 0 = (code0, k)"
    by (cases "makeTeamCode 6 rs 0")
  with assms False have r: "retry (teams st) rs k code0 = Some code"
    and st': "st' = st\<lparr>teams := (teams st)(code \<mapsto> \<lparr>createdAt = now\<rparr>)\<rparr>"
    by (auto simp: create_team_def Let_def split: option.splits)
  from retry_Some [OF r] mk have "teams st code = None"
    and "\<exists>j. code = fst (makeTeamCode 6 rs j)"
    by (auto intro: exI [of _ 0])
  then obtain j where "teams st code = None" and "code = fst (makeTeamCode 6 rs j)"
    by blast
  with False st' makeTeamCode_length [of 6 rs j] makeTeamCode_chars [of 6 rs j]
  show ?thesis by simp
qed

text \<open>
  Claim C7. When \<open>/create-team\<close> is given no custom code (none, or one that is empty
  once trimmed) and answers with a code, that code is one that \<open>makeTeamCode(6)\<close> drew:
  it has exactly 6 characters, each from the alphabet \<open>chars\<close>; the registry did not
  hold it before the request and holds it afterwards.
\<close>

theorem create_generated_code:
  assumes "create_team rs now customCode st = Some (Created code, st')"
    and "\<not> truthy (norm_custom customCode)"
  shows "length code = 6 \<and> set code \<subseteq> set chars \<and>
         teams st code = None \<and> teams st' code = Some \<lparr>createdAt = now\<rparr>"
  using create_team_Created [OF assms(1)] assms(2) by simp

text \<open>The first draw, ABCDEF, is taken; the handler draws again and registers HJKLMN.\<close>

theorem create_generated_code_witness:
  "create_team (\<lambda>k. if k < 6 then k else k + 1) 9 None (init [''ABCDEF'' \<mapsto> \<lparr>createdAt = 0\<rparr>])
     = Some (Created ''HJKLMN'',
         init [''ABCDEF'' \<mapsto> \<lparr>createdAt = 0\<rparr>, ''HJKLMN'' \<mapsto> \<lparr>createdAt = 9\<rparr>]) \<and>
   \<not> truthy (norm_custom None) \<and>
   length ''HJKLMN'' = 6 \<and> set ''HJKLMN'' \<subseteq> set chars \<and>
   teams (init [''ABCDEF'' \<mapsto> \<lparr>createdAt = 0\<rparr>]) ''HJKLMN'' = None \<and>
   teams (init [''ABCDEF'' \<mapsto> \<lparr>createdAt = 0\<rparr>, ''HJKLMN'' \<mapsto> \<lparr>createdAt = 9\<rparr>]) ''HJKLMN''
     = Some \<lparr>createdAt = 9\<rparr>"
proof -
  have h2: "\<not> truthy (norm_custom None)"
    by (simp add: norm_custom_def truthy_def)
  have h1: "create_team (\<lambda>k. if k < 6 then k else k + 1) 9 None
      (init [''ABCDEF'' \<mapsto> \<lparr>createdAt = 0\<rparr>])
     = Some (Created ''HJKLMN'',
         init [''ABCDEF'' \<mapsto> \<lparr>createdAt = 0\<rparr>, ''HJKLMN'' \<mapsto> \<lparr>createdAt = 9\<rparr>])"
    apply (simp add: create_team_def h2 init_def makeTeamCode_eq upt_6 chars_def)
    apply (subst retry.simps)
    apply (simp add: makeTeamCode_eq upt_6 chars_def)
    apply (subst retry.simps)
    apply simp
    done
  from create_generated_code [OF h1 h2] h1 h2 show ?thesis
    by simp
qed

text \<open>
  Claim C8, as the code has it. A custom code is stored as given once trimmed and
  upper-cased: the handler checks neither its length nor its characters. So a code
  that \<open>/create-team\<close> adds to the registry is not empty and was not in the registry
  before (one Team per code, none overwritten); a generated code has 6 characters of
  \<open>chars\<close>, a custom code is the trimmed, upper-cased input whatever it holds.
\<close>

theorem create_registry_code:
  assumes "create_team rs now customCode st = Some (Created code, st')"
  shows "code \<noteq> [] \<and> teams st code = None \<and>
         teams st' = (teams st)(code \<mapsto> \<lparr>createdAt = now\<rparr>) \<and>
         (if truthy (norm_custom customCode)
          then code = toUpperCase (trim (the customCode))
          else length code = 6 \<and> set code \<subseteq> set chars)"
proof -
  from create_team_Created [OF assms] have "code \<noteq> []"
    by (auto split: if_splits)
  with create_team_Created [OF assms] show ?thesis
    by (simp split: if_splits)
qed

theorem create_registry_code_witness:
  "create_team (\<lambda>k. k) 3 (Some '' io '') (init Map.empty)
     = Some (Created ''IO'', init [''IO'' \<mapsto> \<lparr>createdAt = 3\<rparr>]) \<and>
   teams (init Map.empty) ''IO'' = None \<and>
   teams (init [''IO'' \<mapsto> \<lparr>createdAt = 3\<rparr>]) = (teams (init Map.empty))(''IO'' \<mapsto> \<lparr>createdAt = 3\<rparr>) \<and>
   truthy (norm_custom (Some '' io '')) \<and> ''IO'' = toUpperCase (trim (the (Some '' io '')))"
proof -
  have h1: "create_team (\<lambda>k. k) 3 (Some '' io '') (init Map.empty)
     = Some (Created ''IO'', init [''IO'' \<mapsto> \<lparr>createdAt = 3\<rparr>])"
    by (simp add: create_team_def norm_custom_def init_def string_evals)
  have h2: "truthy (norm_custom (Some '' io ''))"
    by (simp add: norm_custom_def string_evals)
  from create_registry_code [OF h1] h1 h2 show ?thesis
    by (simp add: string_evals)
qed

text \<open>The claim as stated fails: the custom code \<open>io\<close> is registered as IO, which has
  two characters, neither of them in the alphabet.\<close>

theorem custom_code_counterexample:
  "create_team (\<lambda>k. k) 3 (Some '' io '') (init Map.empty)
     = Some (Created ''IO'', init [''IO'' \<mapsto> \<lparr>createdAt = 3\<rparr>]) \<and>
   teams (init [''IO'' \<mapsto> \<lparr>createdAt = 3\<rparr>]) ''IO'' = Some \<lparr>createdAt = 3\<rparr> \<and>
   length ''IO'' = 2 \<and> CHR ''I'' \<notin> set chars \<and> CHR ''O'' \<notin> set chars"
  by (simp add: create_team_def norm_custom_def init_def string_evals chars_def)

subsection \<open>A disconnect that leaves the count at zero\<close>

lemma disconnect_joined_stay:
  assumes "sockets st c = Some s" and "truthy (teamCode s)" and "code = the (teamCode s)"
    and "n = max 0 (num_or (roomUserCounts st code) 1 - 1)" and "n > 0"
  shows "disconnect e c st =
    (st\<lparr>sockets := (sockets st)(c := None),
        roomUserCounts := (roomUserCounts st)(code \<mapsto> n),
        roomMessages :=
          (roomMessages st)(code \<mapsto> room_log st code @ [leaveNotice e (userName s)])\<rparr>,
     [ToRoom code (Message (leaveNotice e (userName s)))])"
  using assms by (simp add: disconnect_def Let_def)

lemma disconnect_joined_last:
  assumes "sockets st c = Some s" and "truthy (teamCode s)" and "code = the (teamCode s)"
    and "n = max 0 (num_or (roomUserCounts st code) 1 - 1)" and "\<not> n > 0"
  shows "disconnect e c st =
    (st\<lparr>sockets := (sockets st)(c := None),
        roomUserCounts := (roomUserCounts st)(code \<mapsto> n),
        roomMessages := (roomMessages st)(code := None)\<rparr>,
     [])"
  using assms by (simp add: disconnect_def Let_def)

lemma join_room_ok:
  assumes "sockets st c = Some s" and "truthy tc" and "truthy nm"
    and "code = toUpperCase (trim (the tc))" and "teams st code \<noteq> None"
    and "name = take 50 (trim (the nm))"
  shows "join_room e c tc nm st =
    (st\<lparr>sockets := (sockets st)(c \<mapsto> s\<lparr>rooms := insert code (rooms s), teamCode := Some code,
                                         userName := Some name\<rparr>),
        roomUserCounts := (roomUserCounts st)(code \<mapsto> num_or (roomUserCounts st code) 0 + 1),
        roomMessages := (roomMessages st)(code \<mapsto> room_log st code @ [joinNotice e name])\<rparr>,
     [ToSocket c (RoomHistory (room_log st code)), ToRoom code (Message (joinNotice e name)),
      Ack c AckOk])"
  using assms by (simp add: join_room_def Let_def)

text \<open>
  A joined session disconnects and the room's member count comes out as zero. Then the
  room's message log is gone (\<open>delete roomMessages[teamCode]\<close>), nothing is emitted,
  and the registry is what it was. So when another open connection next joins the same
  code, the join succeeds: the joiner is sent an empty \<open>room-history\<close>, then its own
  join notice goes to the room, which it is now in, then the acknowledgment; the log
  holds that notice alone and the count is one.
\<close>

theorem last_disconnect_clears_log:
  assumes "sockets st c = Some s" and "truthy (teamCode s)" and "code = the (teamCode s)"
    and "disconnect e c st = (st1, outs1)"
    and "memberCount st1 code = 0"
    and "teams st code = Some t"
    and "sockets st1 c' = Some s'"
    and "truthy tc" and "truthy nm" and "toUpperCase (trim (the tc)) = code"
    and "join_room e' c' tc nm st1 = (st2, outs2)"
    and "notice = joinNotice e' (take 50 (trim (the nm)))"
  shows "roomMessages st1 code = None \<and> room_log st1 code = [] \<and> outs1 = [] \<and>
         teams st1 = teams st \<and>
         outs2 = [ToSocket c' (RoomHistory []), ToRoom code (Message notice), Ack c' AckOk] \<and>
         (\<forall>x\<in>set outs2. receives st2 c' x) \<and>
         room_log st2 code = [notice] \<and> memberCount st2 code = 1"
proof -
  define n where "n = max 0 (num_or (roomUserCounts st code) 1 - 1)"
  have last: "\<not> n > 0"
  proof
    assume pos: "n > 0"
    from assms(4) disconnect_joined_stay [OF assms(1-3) n_def pos, of e]
    have "roomUserCounts st1 code = Some n"
      by auto
    with pos have "memberCount st1 code = n"
      by (simp add: memberCount_def num_or_def)
    with pos assms(5) show False by simp
  qed
  from assms(4) disconnect_joined_last [OF assms(1-3) n_def last, of e]
  have st1: "st1 = st\<lparr>sockets := (sockets st)(c := None),
                     roomUserCounts := (roomUserCounts st)(code \<mapsto> n),
                     roomMessages := (roomMessages st)(code := None)\<rparr>"
    and outs1: "outs1 = []"
    by simp_all
  from st1 have gone: "roomMessages st1 code = None" and log1: "room_log st1 code = []"
    and reg: "teams st1 = teams st"
    by (simp_all add: room_log_def)
  from reg assms(6) have team: "teams st1 code \<noteq> None"
    by simp
  from st1 assms(5) have cnt: "num_or (roomUserCounts st1 code) 0 = 0"
    by (simp add: memberCount_def)
  have "join_room e' c' tc nm st1 =
    (st1\<lparr>sockets := (sockets st1)(c' \<mapsto> s'\<lparr>rooms := insert code (rooms s'),
            teamCode := Some code, userName := Some (take 50 (trim (the nm)))\<rparr>),
         roomUserCounts := (roomUserCounts st1)(code \<mapsto> num_or (roomUserCounts st1 code) 0 + 1),
         roomMessages := (roomMessages st1)(code \<mapsto> room_log st1 code @ [notice])\<rparr>,
     [ToSocket c' (RoomHistory (room_log st1 code)), ToRoom code (Message notice), Ack c' AckOk])"
    unfolding assms(12)
    by (rule join_room_ok [OF assms(7) assms(8) assms(9) assms(10) [symmetric] team refl])
  with assms(11) log1 cnt
  have st2: "st2 = st1\<lparr>sockets := (sockets st1)(c' \<mapsto> s'\<lparr>rooms := insert code (rooms s'),
            teamCode := Some code, userName := Some (take 50 (trim (the nm)))\<rparr>),
         roomUserCounts := (roomUserCounts st1)(code \<mapsto> 1),
         roomMessages := (roomMessages st1)(code \<mapsto> [notice])\<rparr>"
    and outs2: "outs2 = [ToSocket c' (RoomHistory []), ToRoom code (Message notice), Ack c' AckOk]"
    by simp_all
  from st2 have "room_log st2 code = [notice]" and "memberCount st2 code = 1"
    by (simp_all add: room_log_def memberCount_def num_or_def)
  moreover from st2 outs2 have "\<forall>x\<in>set outs2. receives st2 c' x"
    by simp
  ultimately show ?thesis
    using gone log1 outs1 reg outs2 by simp
qed

theorem last_disconnect_clears_log_witness:
  "sockets st_ann 1 = Some ann_sock \<and> truthy (teamCode ann_sock) \<and>
   ''ROOM1'' = the (teamCode ann_sock) \<and>
   memberCount (fst (disconnect env1 1 st_ann)) ''ROOM1'' = 0 \<and>
   teams st_ann ''ROOM1'' = Some \<lparr>createdAt = 0\<rparr> \<and>
   sockets (fst (disconnect env1 1 st_ann)) 2 = Some sock0 \<and>
   toUpperCase (trim (the (Some ''room1 ''))) = ''ROOM1'' \<and>
   roomMessages (fst (disconnect env1 1 st_ann)) ''ROOM1'' = None \<and>
   snd (disconnect env1 1 st_ann) = [] \<and>
   teams (fst (disconnect env1 1 st_ann)) = teams st_ann \<and>
   snd (join_room env1 2 (Some ''room1 '') (Some ''Bob'') (fst (disconnect env1 1 st_ann))) =
     [ToSocket 2 (RoomHistory []), ToRoom ''ROOM1'' (Message (joinNotice env1 ''Bob'')),
      Ack 2 AckOk] \<and>
   room_log (fst (join_room env1 2 (Some ''room1 '') (Some ''Bob'') (fst (disconnect env1 1 st_ann))))
     ''ROOM1'' = [joinNotice env1 ''Bob'']"
proof -
  define st1 where "st1 = fst (disconnect env1 1 st_ann)"
  define outs1 where "outs1 = snd (disconnect env1 1 st_ann)"
  define st2 where "st2 = fst (join_room env1 2 (Some ''room1 '') (Some ''Bob'') st1)"
  define outs2 where "outs2 = snd (join_room env1 2 (Some ''room1 '') (Some ''Bob'') st1)"
  have st1_eq: "st1 = \<lparr>teams = demo_teams, roomMessages = Map.empty,
      roomUserCounts = [''ROOM1'' \<mapsto> 0], sockets = [2 \<mapsto> sock0]\<rparr>"
    unfolding st1_def
    by (simp add: st_ann_def ann_sock_def disconnect_def truthy_def num_or_def Let_def)
  have h1: "sockets st_ann 1 = Some ann_sock"
    by (simp add: st_ann_def)
  have h2: "truthy (teamCode ann_sock)"
    by (simp add: ann_sock_def truthy_def)
  have h3: "''ROOM1'' = the (teamCode ann_sock)"
    by (simp add: ann_sock_def)
  have h4: "disconnect env1 1 st_ann = (st1, outs1)"
    by (simp add: st1_def outs1_def)
  have h5: "memberCount st1 ''ROOM1'' = 0"
    by (simp add: st1_eq memberCount_def num_or_def)
  have h6: "teams st_ann ''ROOM1'' = Some \<lparr>createdAt = 0\<rparr>"
    by (simp add: st_ann_def demo_teams_def)
  have h7: "sockets st1 2 = Some sock0"
    by (simp add: st1_eq)
  have h8: "truthy (Some ''room1 '')" and h9: "truthy (Some ''Bob'')"
    by (simp_all add: truthy_def)
  have h10: "toUpperCase (trim (the (Some ''room1 ''))) = ''ROOM1''"
    by (simp add: string_evals)
  have h11: "join_room env1 2 (Some ''room1 '') (Some ''Bob'') st1 = (st2, outs2)"
    by (simp add: st2_def outs2_def)
  have h12: "joinNotice env1 ''Bob'' = joinNotice env1 (take 50 (trim (the (Some ''Bob''))))"
    by (simp add: string_evals)
  from last_disconnect_clears_log [OF h1 h2 h3 h4 h5 h6 h7 h8 h9 h10 h11 h12]
    h1 h2 h3 h5 h6 h7 h10
  show ?thesis
    unfolding st1_def [symmetric] outs1_def [symmetric] st2_def [symmetric] outs2_def [symmetric]
    by simp
qed

subsection \<open>What one event does to a room's log\<close>

lemma stamp_id_nonempty: "stamp_id x \<noteq> []"
  by (cases x) simp

lemma sys_id_stamp: "sys_id e = stamp_id (True, date_now e, random e mod 1000)"
  by (simp add: sys_id_def)

lemma chat_id_stamp: "chat_id e = stamp_id (False, date_now e, random e mod 10000)"
  by (simp add: chat_id_def)

lemma set_splice1: "set (splice1 idx xs) \<subseteq> set xs"
  by (auto simp: splice1_def dest: in_set_takeD in_set_dropD)

lemma distinct_splice1: "distinct (map f xs) \<Longrightarrow> distinct (map f (splice1 idx xs))"
proof (induction xs arbitrary: idx)
  case Nil
  show ?case by (simp add: splice1_def)
next
  case (Cons a xs)
  show ?case
  proof (cases idx)
    case 0
    with Cons.prems show ?thesis by (simp add: splice1_def)
  next
    case (Suc j)
    have eq: "splice1 (Suc j) (a # xs) = a # splice1 j xs"
      by (simp add: splice1_def)
    from Cons.prems have "f a \<notin> f ` set xs" and "distinct (map f xs)"
      by simp_all
    with set_splice1 [of j xs] Cons.IH [of j] show ?thesis
      unfolding Suc eq by auto
  qed
qed

text \<open>An event leaves a room's log as it is, appends one message that carries the
  event's stamp, takes one message out, or empties the log.\<close>

lemma step_room_log:
  assumes "step ev st = Some (st', outs)"
  shows "room_log st' code = room_log st code \<or>
         (\<exists>m. room_log st' code = room_log st code @ [m] \<and> msg_id m \<in> stamp_id ` set (stamp ev)) \<or>
         (\<exists>idx. room_log st' code = splice1 idx (room_log st code)) \<or>
         room_log st' code = []"
proof (cases ev)
  case (CreateTeam rs now customCode)
  with assms obtain r where "create_team rs now customCode st = Some (r, st')"
    by auto
  then have "roomMessages st' = roomMessages st"
    by (auto simp: create_team_def Let_def split: if_splits option.splits prod.splits)
  then show ?thesis by (simp add: room_log_def)
next
  case (Connect c)
  with assms have "roomMessages st' = roomMessages st"
    by (auto simp: connect_def split: option.splits)
  then show ?thesis by (simp add: room_log_def)
next
  case (JoinRoom e c tc nm)
  with assms have "join_room e c tc nm st = (st', outs)" by simp
  then show ?thesis
    unfolding JoinRoom
    by (auto simp: join_room_def Let_def room_log_def joinNotice_def sys_id_stamp
        split: option.splits if_splits)
next
  case (SendMessage e c t)
  with assms have "send_message e c t st = (st', outs)" by simp
  then show ?thesis
    unfolding SendMessage
    by (auto simp: send_message_def Let_def room_log_def chat_msg_def chat_id_stamp
        split: option.splits if_splits)
next
  case (DeleteMessage c i)
  with assms have "delete_message c i st = (st', outs)" by simp
  then show ?thesis
    by (auto simp: delete_message_def Let_def room_log_def split: option.splits if_splits)
next
  case (Disconnect e c)
  with assms have "disconnect e c st = (st', outs)" by simp
  then show ?thesis
    unfolding Disconnect
    by (auto simp: disconnect_def Let_def room_log_def leaveNotice_def sys_id_stamp
        split: option.splits if_splits)
qed

lemma run_invariant:
  assumes "run st evs = Some st'" and "P st"
    and "\<And>ev s s' outs. P s \<Longrightarrow> step ev s = Some (s', outs) \<Longrightarrow> P s'"
  shows "P st'"
  using assms(1,2)
proof (induction evs arbitrary: st)
  case Nil
  then show ?case by simp
next
  case (Cons ev evs)
  from Cons.prems(1) obtain s1 outs where s1: "step ev st = Some (s1, outs)"
    and rest: "run s1 evs = Some st'"
    by (auto split: option.splits)
  from assms(3) [OF Cons.prems(2) s1] have "P s1" .
  with Cons.IH rest show ?case by blast
qed

lemma run_append:
  "run st (xs @ ys) = (case run st xs of None \<Rightarrow> None | Some s \<Rightarrow> run s ys)"
  by (induction xs arbitrary: st) (auto split: option.splits)

lemma init_room_log: "room_log (init T) code = []"
  by (simp add: init_def room_log_def)

text \<open>Every id in a log was built by the server, so none is the empty string.\<close>

lemma reachable_ids_nonempty:
  assumes "run (init T) evs = Some st" and "m \<in> set (room_log st code)"
  shows "msg_id m \<noteq> []"
proof -
  have "\<forall>code. \<forall>m\<in>set (room_log st code). msg_id m \<noteq> []"
  proof (rule run_invariant [OF assms(1)])
    show "\<forall>code. \<forall>m\<in>set (room_log (init T) code). msg_id m \<noteq> []"
      by (simp add: init_room_log)
  next
    fix ev s s' outs
    assume inv: "\<forall>code. \<forall>m\<in>set (room_log s code). msg_id m \<noteq> []"
      and st: "step ev s = Some (s', outs)"
    show "\<forall>code. \<forall>m\<in>set (room_log s' code). msg_id m \<noteq> []"
    proof (intro allI ballI)
      fix code m
      assume m: "m \<in> set (room_log s' code)"
      from step_room_log [OF st, of code] consider
        "room_log s' code = room_log s code"
        | x where "room_log s' code = room_log s code @ [x]" "msg_id x \<in> stamp_id ` set (stamp ev)"
        | idx where "room_log s' code = splice1 idx (room_log s code)"
        | "room_log s' code = []"
        by blast
      then show "msg_id m \<noteq> []"
      proof cases
        case 1
        with m inv show ?thesis by simp
      next
        case 2
        with m inv show ?thesis by (auto simp: stamp_id_nonempty)
      next
        case 3
        with m set_splice1 [of idx "room_log s code"] inv show ?thesis by auto
      next
        case 4
        with m show ?thesis by simp
      qed
    qed
  qed
  with assms(2) show ?thesis by blast
qed

subsection \<open>Deleting what someone else wrote\<close>

text \<open>
  Claim C10. In any state the server reaches, a session that has joined a room can
  delete any message of that room's log by its id: the handler looks at the id alone,
  never at \<open>system\<close>, at the author's name or at the caller's name. The first message
  \<open>x\<close> with the id goes, the delete notice is sent to the room and the caller is
  acknowledged, whether \<open>m\<close> is a join or leave notice or somebody else's message.
\<close>

theorem delete_any_author:
  assumes "run (init T) evs = Some st"
    and "sockets st c = Some s" and "truthy (teamCode s)" and "code = the (teamCode s)"
    and "m \<in> set (room_log st code)"
  shows "\<exists>pre x post.
           room_log st code = pre @ x # post \<and> msg_id x = msg_id m \<and>
           (\<forall>y\<in>set pre. msg_id y \<noteq> msg_id m) \<and>
           delete_message c (Some (msg_id m)) st =
             (st\<lparr>roomMessages := (roomMessages st)(code \<mapsto> pre @ post)\<rparr>,
              [ToRoom code (DeleteNotice (msg_id m)), Ack c AckOk])"
proof -
  from reachable_ids_nonempty [OF assms(1,5)] have "msg_id m \<noteq> []" .
  from delete_message_found [OF assms(2-4) this assms(5) refl] show ?thesis .
qed

text \<open>Bob deletes Ann's message, then Ann's join notice.\<close>

theorem delete_any_author_witness:
  "run (init demo_teams)
     ([Connect 1, Connect 2, JoinRoom env0 1 (Some '' room1'') (Some ''Ann '')] @
      [JoinRoom env1 2 (Some ''ROOM1'') (Some ''Bob''), SendMessage env1 1 (Some '' hi '')])
     = Some st_chat \<and>
   sockets st_chat 2 = Some bob_sock \<and> truthy (teamCode bob_sock) \<and>
   ''ROOM1'' = the (teamCode bob_sock) \<and>
   chat_msg env1 ''Ann'' ''hi'' \<in> set (room_log st_chat ''ROOM1'') \<and>
   joinNotice env0 ''Ann'' \<in> set (room_log st_chat ''ROOM1'') \<and>
   delete_message 2 (Some (msg_id (chat_msg env1 ''Ann'' ''hi''))) st_chat =
     (st_chat\<lparr>roomMessages :=
        [''ROOM1'' \<mapsto> [joinNotice env0 ''Ann'', joinNotice env1 ''Bob'']]\<rparr>,
      [ToRoom ''ROOM1'' (DeleteNotice ''m-6-1008''), Ack 2 AckOk]) \<and>
   delete_message 2 (Some (msg_id (joinNotice env0 ''Ann''))) st_chat =
     (st_chat\<lparr>roomMessages :=
        [''ROOM1'' \<mapsto> [joinNotice env1 ''Bob'', chat_msg env1 ''Ann'' ''hi'']]\<rparr>,
      [ToRoom ''ROOM1'' (DeleteNotice ''sys-5-7''), Ack 2 AckOk])"
proof -
  have r1: "run (init demo_teams)
     ([Connect 1, Connect 2, JoinRoom env0 1 (Some '' room1'') (Some ''Ann '')] @
      [JoinRoom env1 2 (Some ''ROOM1'') (Some ''Bob''), SendMessage env1 1 (Some '' hi '')])
     = Some st_chat"
    using st_ann_reached st_chat_reached by (simp only: run_append option.case)
  have h1: "sockets st_chat 2 = Some bob_sock"
    by (simp add: st_chat_def)
  have h2: "truthy (teamCode bob_sock)"
    by (simp add: bob_sock_def truthy_def)
  have h3: "''ROOM1'' = the (teamCode bob_sock)"
    by (simp add: bob_sock_def)
  have log: "room_log st_chat ''ROOM1'' =
      [joinNotice env0 ''Ann'', joinNotice env1 ''Bob'', chat_msg env1 ''Ann'' ''hi'']"
    by (simp add: st_chat_def room_log_def)
  have m1: "chat_msg env1 ''Ann'' ''hi'' \<in> set (room_log st_chat ''ROOM1'')"
    and m2: "joinNotice env0 ''Ann'' \<in> set (room_log st_chat ''ROOM1'')"
    by (simp_all add: log)
  have d1: "delete_message 2 (Some (msg_id (chat_msg env1 ''Ann'' ''hi''))) st_chat =
     (st_chat\<lparr>roomMessages :=
        [''ROOM1'' \<mapsto> [joinNotice env0 ''Ann'', joinNotice env1 ''Bob'']]\<rparr>,
      [ToRoom ''ROOM1'' (DeleteNotice ''m-6-1008''), Ack 2 AckOk])"
    using delete_any_author [OF r1 h1 h2 h3 m1]
    by (simp add: h1 delete_message_def Let_def bob_sock_def truthy_def log splice1_def
        env0_def env1_def id_evals)
       (simp add: st_chat_def env0_def env1_def id_evals)
  have d2: "delete_message 2 (Some (msg_id (joinNotice env0 ''Ann''))) st_chat =
     (st_chat\<lparr>roomMessages :=
        [''ROOM1'' \<mapsto> [joinNotice env1 ''Bob'', chat_msg env1 ''Ann'' ''hi'']]\<rparr>,
      [ToRoom ''ROOM1'' (DeleteNotice ''sys-5-7''), Ack 2 AckOk])"
    using delete_any_author [OF r1 h1 h2 h3 m2]
    by (simp add: h1 delete_message_def Let_def bob_sock_def truthy_def log splice1_def
        env0_def env1_def id_evals)
       (simp add: st_chat_def env0_def env1_def id_evals)
  from r1 h1 h2 h3 m1 m2 d1 d2 show ?thesis by simp
qed

subsection \<open>Message ids\<close>

lemma digit_val_digit: "d < 10 \<Longrightarrow> digit_val (digit d) = d"
proof -
  assume "d < 10"
  then have "d = 0 \<or> d = 1 \<or> d = 2 \<or> d = 3 \<or> d = 4 \<or> d = 5 \<or> d = 6 \<or> d = 7 \<or>
      d = 8 \<or> d = 9"
    by arith
  then show ?thesis
    by (elim disjE) (simp_all add: digit_def digit_val_def)
qed

lemma digit_in: "d < 10 \<Longrightarrow> digit d \<in> set ''0123456789''"
  unfolding digit_def by (rule nth_mem) simp

lemma dec_digits: "set (dec n) \<subseteq> set ''0123456789''"
proof (induction n rule: dec.induct)
  case (1 n)
  show ?case
  proof (cases "n < 10")
    case True
    then have "dec n = [digit n]" by (simp add: dec.simps)
    with digit_in [OF True] show ?thesis by simp
  next
    case False
    then have "dec n = dec (n div 10) @ [digit (n mod 10)]"
      by (subst dec.simps) simp
    moreover have "digit (n mod 10) \<in> set ''0123456789''"
      by (rule digit_in) simp
    ultimately show ?thesis using "1.IH" [OF False] by simp
  qed
qed

lemma undec_snoc: "undec (s @ [c]) = 10 * undec s + digit_val c"
  by (simp add: undec_def)

lemma undec_dec: "undec (dec n) = n"
proof (induction n rule: dec.induct)
  case (1 n)
  show ?case
  proof (cases "n < 10")
    case True
    then have "dec n = [digit n]" by (simp add: dec.simps)
    with digit_val_digit [OF True] show ?thesis by (simp add: undec_def)
  next
    case False
    then have "dec n = dec (n div 10) @ [digit (n mod 10)]"
      by (subst dec.simps) simp
    moreover have "digit_val (digit (n mod 10)) = n mod 10"
      by (rule digit_val_digit) simp
    ultimately show ?thesis using "1.IH" [OF False] by (simp add: undec_snoc)
  qed
qed

lemma dec_inj: "dec a = dec b \<Longrightarrow> a = b"
  by (metis undec_dec)

lemma dash_not_in_dec: "CHR ''-'' \<notin> set (dec n)"
  using dec_digits [of n] by auto

lemma dec_dash_dec:
  assumes "dec t @ ''-'' @ dec r = dec t' @ ''-'' @ dec r'"
  shows "t = t' \<and> r = r'"
proof -
  from assms have "dec t @ CHR ''-'' # dec r = dec t' @ CHR ''-'' # dec r'"
    by simp
  with append_Cons_eq_iff [OF dash_not_in_dec [of t] dash_not_in_dec [of r], of "dec t'" "dec r'"]
  have "dec t = dec t' \<and> dec r = dec r'"
    by simp
  then show ?thesis by (auto dest: dec_inj)
qed

text \<open>The id determines the stamp: prefix, millisecond and suffix can be read back.\<close>

lemma stamp_id_inj: "stamp_id x = stamp_id y \<Longrightarrow> x = y"
proof -
  assume eq: "stamp_id x = stamp_id y"
  obtain s t r where x: "x = (s, t, r)" by (cases x)
  obtain s' t' r' where y: "y = (s', t', r')" by (cases y)
  from eq x y have s: "s = s'"
    by (cases s; cases s') simp_all
  with eq x y have "dec t @ ''-'' @ dec r = dec t' @ ''-'' @ dec r'"
    by (cases s') simp_all
  from dec_dash_dec [OF this] s x y show ?thesis by simp
qed

lemma distinct_stamp_ids: "distinct xs \<Longrightarrow> distinct (map stamp_id xs)"
  by (rule iffD2 [OF distinct_map]) (auto intro: inj_onI dest: stamp_id_inj)

lemma run_ids_distinct:
  assumes "run st evs = Some st'"
    and "\<forall>code. distinct (map msg_id (room_log st code)) \<and> msg_id ` set (room_log st code) \<subseteq> E"
    and "distinct (map stamp_id (stamps evs))"
    and "stamp_id ` set (stamps evs) \<inter> E = {}"
  shows "\<forall>code. distinct (map msg_id (room_log st' code)) \<and>
           msg_id ` set (room_log st' code) \<subseteq> E \<union> stamp_id ` set (stamps evs)"
  using assms
proof (induction evs arbitrary: st E)
  case Nil
  then show ?case by (simp add: stamps_def)
next
  case (Cons ev evs)
  from Cons.prems(1) obtain s1 outs where s1: "step ev st = Some (s1, outs)"
    and rest: "run s1 evs = Some st'"
    by (auto split: option.splits)
  let ?E1 = "E \<union> stamp_id ` set (stamp ev)"
  have st_split: "stamps (ev # evs) = stamp ev @ stamps evs"
    by (simp add: stamps_def)
  from Cons.prems(3,4) have fresh: "stamp_id ` set (stamp ev) \<inter> E = {}"
    and d_rest: "distinct (map stamp_id (stamps evs))"
    and disj: "stamp_id ` set (stamps evs) \<inter> ?E1 = {}"
    unfolding st_split by auto
  have inv1: "\<forall>code. distinct (map msg_id (room_log s1 code)) \<and>
      msg_id ` set (room_log s1 code) \<subseteq> ?E1"
  proof
    fix code
    from Cons.prems(2) have d: "distinct (map msg_id (room_log st code))"
      and sub: "msg_id ` set (room_log st code) \<subseteq> E"
      by simp_all
    from step_room_log [OF s1, of code] consider
      "room_log s1 code = room_log st code"
      | x where "room_log s1 code = room_log st code @ [x]" "msg_id x \<in> stamp_id ` set (stamp ev)"
      | idx where "room_log s1 code = splice1 idx (room_log st code)"
      | "room_log s1 code = []"
      by blast
    then show "distinct (map msg_id (room_log s1 code)) \<and>
      msg_id ` set (room_log s1 code) \<subseteq> ?E1"
    proof cases
      case 1
      with d sub show ?thesis by auto
    next
      case 2
      from 2(2) fresh sub have "msg_id x \<notin> msg_id ` set (room_log st code)"
        by blast
      with 2 d sub show ?thesis by auto
    next
      case 3
      from set_splice1 [of idx "room_log st code"] sub
      have "msg_id ` set (splice1 idx (room_log st code)) \<subseteq> E"
        by blast
      with 3 distinct_splice1 [OF d, of idx] show ?thesis by auto
    next
      case 4
      then show ?thesis by simp
    qed
  qed
  from Cons.IH [OF rest inv1 d_rest disj]
  show ?case unfolding st_split by (simp add: Un_assoc image_Un)
qed

text \<open>
  Claim C9, as the code has it. An id is the prefix, \<open>Date.now()\<close> and a random
  suffix below 1000 (notices) or 10000 (chat messages); no handler looks whether the
  id is already in the log. The ids of a room's log are pairwise distinct in every
  state reached by a run in which no two message-creating events (join, send,
  disconnect) carry the same stamp, that is the same prefix, millisecond and suffix.
\<close>

theorem ids_distinct_for_distinct_stamps:
  assumes "run (init T) evs = Some st" and "distinct (stamps evs)"
  shows "distinct (map msg_id (room_log st code))"
proof -
  have "\<forall>code. distinct (map msg_id (room_log (init T) code)) \<and>
      msg_id ` set (room_log (init T) code) \<subseteq> {}"
    by (simp add: init_room_log)
  from run_ids_distinct [OF assms(1) this distinct_stamp_ids [OF assms(2)]]
  show ?thesis by simp
qed

theorem ids_distinct_for_distinct_stamps_witness:
  "run (init demo_teams)
     ([Connect 1, Connect 2, JoinRoom env0 1 (Some '' room1'') (Some ''Ann '')] @
      [JoinRoom env1 2 (Some ''ROOM1'') (Some ''Bob''), SendMessage env1 1 (Some '' hi '')])
     = Some st_chat \<and>
   distinct (stamps
     ([Connect 1, Connect 2, JoinRoom env0 1 (Some '' room1'') (Some ''Ann '')] @
      [JoinRoom env1 2 (Some ''ROOM1'') (Some ''Bob''), SendMessage env1 1 (Some '' hi '')])) \<and>
   map msg_id (room_log st_chat ''ROOM1'') = [''sys-5-7'', ''sys-6-8'', ''m-6-1008''] \<and>
   distinct (map msg_id (room_log st_chat ''ROOM1''))"
proof -
  have r1: "run (init demo_teams)
     ([Connect 1, Connect 2, JoinRoom env0 1 (Some '' room1'') (Some ''Ann '')] @
      [JoinRoom env1 2 (Some ''ROOM1'') (Some ''Bob''), SendMessage env1 1 (Some '' hi '')])
     = Some st_chat"
    using st_ann_reached st_chat_reached by (simp only: run_append option.case)
  have d: "distinct (stamps
     ([Connect 1, Connect 2, JoinRoom env0 1 (Some '' room1'') (Some ''Ann '')] @
      [JoinRoom env1 2 (Some ''ROOM1'') (Some ''Bob''), SendMessage env1 1 (Some '' hi '')]))"
    by (simp add: stamps_def env0_def env1_def)
  have ids: "map msg_id (room_log st_chat ''ROOM1'') = [''sys-5-7'', ''sys-6-8'', ''m-6-1008'']"
    by (simp add: st_chat_def room_log_def env0_def env1_def id_evals)
  from ids_distinct_for_distinct_stamps [OF r1 d, of "''ROOM1''"] r1 d ids
  show ?thesis by simp
qed

text \<open>The claim as stated fails: two messages sent within one millisecond that draw
  the same suffix get the same id, and both stay in the log.\<close>

theorem duplicate_id_counterexample:
  "run (init demo_teams)
     [Connect 1, Connect 2, JoinRoom env0 1 (Some ''room1'') (Some ''Ann''),
      SendMessage env1 1 (Some ''a''), SendMessage env1 1 (Some ''b'')] = Some st_dup \<and>
   map msg_id (room_log st_dup ''ROOM1'') = [''sys-5-7'', ''m-6-1008'', ''m-6-1008''] \<and>
   \<not> distinct (map msg_id (room_log st_dup ''ROOM1''))"
proof -
  have "run (init demo_teams)
     [Connect 1, Connect 2, JoinRoom env0 1 (Some ''room1'') (Some ''Ann''),
      SendMessage env1 1 (Some ''a''), SendMessage env1 1 (Some ''b'')] = Some st_dup"
    by (simp add: init_def st_dup_def sock0_def ann_sock_def demo_teams_def handler_evals
        string_evals fun_upd_twist)
  moreover have "map msg_id (room_log st_dup ''ROOM1'') = [''sys-5-7'', ''m-6-1008'', ''m-6-1008'']"
    by (simp add: st_dup_def room_log_def env0_def env1_def id_evals)
  ultimately show ?thesis by simp
qed

subsection \<open>A session's team code\<close>

text \<open>
  Claim C2, as the code has it. The \<open>join-room\<close> handler does not look at the socket's
  state: a socket that has joined may join again, and its \<open>teamCode\<close> becomes the code
  of the later join. What holds is this: while the connection stays open, a
  \<open>teamCode\<close> once set is never unset, and the only event that changes it is a
  successful \<open>join-room\<close> on the same connection, which sets it to the trimmed,
  upper-cased code of that join, a code of the registry. Sending, deleting, refused
  joins and every event of another connection leave it as it is.
\<close>

theorem teamCode_kept_or_rejoined:
  assumes "step ev st = Some (st', outs)"
    and "sockets st c = Some s" and "teamCode s = Some code"
    and "sockets st' c = Some s'"
  shows "(\<exists>code'. teamCode s' = Some code') \<and>
         (teamCode s' \<noteq> Some code \<longrightarrow>
            (\<exists>e tc nm. ev = JoinRoom e c tc nm \<and> truthy tc \<and> truthy nm \<and>
               teamCode s' = Some (toUpperCase (trim (the tc))) \<and>
               teams st (toUpperCase (trim (the tc))) \<noteq> None))"
proof (cases ev)
  case (CreateTeam rs now customCode)
  with assms(1) obtain r where "create_team rs now customCode st = Some (r, st')"
    by auto
  then have "sockets st' = sockets st"
    by (auto simp: create_team_def Let_def split: if_splits option.splits prod.splits)
  with assms(2-4) show ?thesis by simp
next
  case (Connect c')
  with assms(1) have "sockets st' c = sockets st c"
    using assms(2) by (auto simp: connect_def split: option.splits)
  with assms(2-4) show ?thesis by simp
next
  case (JoinRoom e c' tc nm)
  with assms(1) have j: "join_room e c' tc nm st = (st', outs)" by simp
  show ?thesis
  proof (cases "c' = c")
    case True
    with j assms(2-4) show ?thesis
      unfolding JoinRoom
      by (auto simp: join_room_def Let_def split: if_splits)
  next
    case False
    with j have "sockets st' c = sockets st c"
      by (auto simp: join_room_def Let_def split: option.splits if_splits)
    with assms(2-4) show ?thesis by simp
  qed
next
  case (SendMessage e c' t)
  with assms(1) have "send_message e c' t st = (st', outs)" by simp
  then have "sockets st' = sockets st"
    by (auto simp: send_message_def Let_def split: option.splits if_splits)
  with assms(2-4) show ?thesis by simp
next
  case (DeleteMessage c' i)
  with assms(1) have "delete_message c' i st = (st', outs)" by simp
  then have "sockets st' = sockets st"
    by (auto simp: delete_message_def Let_def split: option.splits if_splits)
  with assms(2-4) show ?thesis by simp
next
  case (Disconnect e c')
  with assms(1) have "disconnect e c' st = (st', outs)" by simp
  then have "sockets st' c = sockets st c \<or> sockets st' c = None"
    by (auto simp: disconnect_def Let_def split: option.splits if_splits)
  with assms(2-4) show ?thesis by auto
qed

lemma st_moved_step:
  "step (JoinRoom env1 1 (Some ''room2'') (Some ''Ann'')) st_ann =
     Some (st_moved,
       [ToSocket 1 (RoomHistory []), ToRoom ''ROOM2'' (Message (joinNotice env1 ''Ann'')),
        Ack 1 AckOk])"
  by (simp add: st_ann_def st_moved_def sock0_def ann_sock_def moved_sock_def demo_teams_def
      handler_evals string_evals fun_upd_twist)

theorem teamCode_kept_or_rejoined_witness:
  "step (JoinRoom env1 1 (Some ''room2'') (Some ''Ann'')) st_ann =
     Some (st_moved,
       [ToSocket 1 (RoomHistory []), ToRoom ''ROOM2'' (Message (joinNotice env1 ''Ann'')),
        Ack 1 AckOk]) \<and>
   sockets st_ann 1 = Some ann_sock \<and> teamCode ann_sock = Some ''ROOM1'' \<and>
   sockets st_moved 1 = Some moved_sock \<and>
   teamCode moved_sock = Some (toUpperCase (trim (the (Some ''room2'')))) \<and>
   teams st_ann (toUpperCase (trim (the (Some ''room2'')))) = Some \<lparr>createdAt = 1\<rparr>"
proof -
  have h2: "sockets st_ann 1 = Some ann_sock"
    by (simp add: st_ann_def)
  have h3: "teamCode ann_sock = Some ''ROOM1''"
    by (simp add: ann_sock_def)
  have h4: "sockets st_moved 1 = Some moved_sock"
    by (simp add: st_moved_def)
  have c1: "teamCode moved_sock = Some (toUpperCase (trim (the (Some ''room2''))))"
    by (simp add: moved_sock_def string_evals)
  have c2: "teams st_ann (toUpperCase (trim (the (Some ''room2'')))) = Some \<lparr>createdAt = 1\<rparr>"
    by (simp add: st_ann_def demo_teams_def string_evals)
  from teamCode_kept_or_rejoined [OF st_moved_step h2 h3 h4] st_moved_step h2 h3 h4 c1 c2
  show ?thesis by simp
qed

text \<open>The claim as stated fails: connection 1 has joined ROOM1; it joins ROOM2, the
  join is acknowledged, and its team code is ROOM2 from then on.\<close>

theorem rejoin_counterexample:
  "run (init demo_teams)
     [Connect 1, Connect 2, JoinRoom env0 1 (Some '' room1'') (Some ''Ann '')] = Some st_ann \<and>
   sockets st_ann 1 = Some ann_sock \<and> teamCode ann_sock = Some ''ROOM1'' \<and>
   step (JoinRoom env1 1 (Some ''room2'') (Some ''Ann'')) st_ann =
     Some (st_moved,
       [ToSocket 1 (RoomHistory []), ToRoom ''ROOM2'' (Message (joinNotice env1 ''Ann'')),
        Ack 1 AckOk]) \<and>
   sockets st_moved 1 = Some moved_sock \<and> teamCode moved_sock = Some ''ROOM2''"
  using st_ann_reached st_moved_step
  by (simp add: st_ann_def st_moved_def ann_sock_def moved_sock_def)

subsection \<open>Member counts\<close>

lemma attached_st_moved: "attached st_moved ''ROOM1'' = {}"
  by (auto simp: attached_def st_moved_def moved_sock_def sock0_def split: if_splits)

lemma attached_st_gone: "attached st_gone ''ROOM1'' = {}"
  by (auto simp: attached_def st_gone_def sock0_def split: if_splits)

text \<open>
  Claim C1 at a failing input. Connection 1 joins ROOM1, then ROOM2, then closes.
  After the second join the count of ROOM1 is still 1 although no open socket has
  ROOM1 as its team code; the disconnect decrements ROOM2 only, so ROOM1 keeps its
  count of 1, and its log, with nobody attached.
\<close>

theorem stale_count_after_rejoin:
  "run (init demo_teams)
     ([Connect 1, Connect 2, JoinRoom env0 1 (Some '' room1'') (Some ''Ann '')] @
      [JoinRoom env1 1 (Some ''room2'') (Some ''Ann'')]) = Some st_moved \<and>
   memberCount st_moved ''ROOM1'' = 1 \<and> attached st_moved ''ROOM1'' = {} \<and>
   run st_moved [Disconnect env1 1] = Some st_gone \<and>
   memberCount st_gone ''ROOM1'' = 1 \<and> attached st_gone ''ROOM1'' = {} \<and>
   room_log st_gone ''ROOM1'' = [joinNotice env0 ''Ann'']"
proof -
  have "run st_ann [JoinRoom env1 1 (Some ''room2'') (Some ''Ann'')] = Some st_moved"
    using st_moved_step by simp
  with st_ann_reached have r1: "run (init demo_teams)
     ([Connect 1, Connect 2, JoinRoom env0 1 (Some '' room1'') (Some ''Ann '')] @
      [JoinRoom env1 1 (Some ''room2'') (Some ''Ann'')]) = Some st_moved"
    by (simp only: run_append option.case)
  have r2: "run st_moved [Disconnect env1 1] = Some st_gone"
    by (simp add: st_moved_def st_gone_def moved_sock_def sock0_def handler_evals truthy_def
        fun_upd_twist)
  have "memberCount st_moved ''ROOM1'' = 1" and "memberCount st_gone ''ROOM1'' = 1"
    and "room_log st_gone ''ROOM1'' = [joinNotice env0 ''Ann'']"
    by (simp_all add: st_moved_def st_gone_def memberCount_def num_or_def room_log_def)
  with r1 r2 attached_st_moved attached_st_gone show ?thesis by simp
qed

subsection \<open>Sending\<close>

text \<open>
  Claim C5 at a failing input. The \<open>join-room\<close> handler tests the name before it
  trims it, so a name of one space passes; the join is acknowledged, the socket's
  \<open>teamCode\<close> is ROOM1, the room counts the member, and \<open>userName\<close> is the empty
  string. The \<open>send-message\<close> handler then refuses this joined session with
  \<open>You are not in a room\<close>, and nothing is appended.
\<close>

theorem joined_blank_name_cannot_send:
  "step (JoinRoom env0 1 (Some ''room1'') (Some '' '')) st_open =
     Some (st_blank,
       [ToSocket 1 (RoomHistory []), ToRoom ''ROOM1'' (Message (joinNotice env0 [])),
        Ack 1 AckOk]) \<and>
   sockets st_blank 1 = Some blank_sock \<and> teamCode blank_sock = Some ''ROOM1'' \<and>
   memberCount st_blank ''ROOM1'' = 1 \<and>
   step (SendMessage env1 1 (Some ''hi'')) st_blank = Some (st_blank, [Ack 1 (AckErr NotJoined)])"
proof -
  have "step (JoinRoom env0 1 (Some ''room1'') (Some '' '')) st_open =
     Some (st_blank,
       [ToSocket 1 (RoomHistory []), ToRoom ''ROOM1'' (Message (joinNotice env0 [])),
        Ack 1 AckOk])"
    by (simp add: st_open_def st_blank_def sock0_def blank_sock_def demo_teams_def
        handler_evals string_evals)
  moreover have "step (SendMessage env1 1 (Some ''hi'')) st_blank =
      Some (st_blank, [Ack 1 (AckErr NotJoined)])"
    by (simp add: st_blank_def blank_sock_def send_message_def truthy_def)
  moreover have "sockets st_blank 1 = Some blank_sock" "teamCode blank_sock = Some ''ROOM1''"
    "memberCount st_blank ''ROOM1'' = 1"
    by (simp_all add: st_blank_def blank_sock_def memberCount_def num_or_def)
  ultimately show ?thesis by simp
qed

subsection \<open>What holds of the counts\<close>

text \<open>A count is never negative.\<close>

lemma step_count_nonneg:
  assumes "step ev st = Some (st', outs)" and "\<forall>code. 0 \<le> memberCount st code"
  shows "\<forall>code. 0 \<le> memberCount st' code"
proof (cases ev)
  case (CreateTeam rs now customCode)
  with assms(1) obtain r where "create_team rs now customCode st = Some (r, st')"
    by auto
  then have "roomUserCounts st' = roomUserCounts st"
    by (auto simp: create_team_def Let_def split: if_splits option.splits prod.splits)
  with assms(2) show ?thesis by (simp add: memberCount_def)
next
  case (Connect c)
  with assms(1) have "roomUserCounts st' = roomUserCounts st"
    by (auto simp: connect_def split: option.splits)
  with assms(2) show ?thesis by (simp add: memberCount_def)
next
  case (JoinRoom e c tc nm)
  with assms(1) have "join_room e c tc nm st = (st', outs)" by simp
  then consider "roomUserCounts st' = roomUserCounts st"
    | code0 where "roomUserCounts st' =
        (roomUserCounts st)(code0 \<mapsto> num_or (roomUserCounts st code0) 0 + 1)"
    by (auto simp: join_room_def Let_def split: option.splits if_splits)
  then show ?thesis
  proof cases
    case 1
    with assms(2) show ?thesis by (simp add: memberCount_def)
  next
    case 2
    from assms(2) have "0 \<le> num_or (roomUserCounts st code0) 0"
      by (simp add: memberCount_def)
    with assms(2) 2 show ?thesis
      by (simp add: memberCount_def num_or_def)
  qed
next
  case (SendMessage e c t)
  with assms(1) have "send_message e c t st = (st', outs)" by simp
  then have "roomUserCounts st' = roomUserCounts st"
    by (auto simp: send_message_def Let_def split: option.splits if_splits)
  with assms(2) show ?thesis by (simp add: memberCount_def)
next
  case (DeleteMessage c i)
  with assms(1) have "delete_message c i st = (st', outs)" by simp
  then have "roomUserCounts st' = roomUserCounts st"
    by (auto simp: delete_message_def Let_def split: option.splits if_splits)
  with assms(2) show ?thesis by (simp add: memberCount_def)
next
  case (Disconnect e c)
  with assms(1) have "disconnect e c st = (st', outs)" by simp
  with assms(2) show ?thesis
    by (auto simp: disconnect_def Let_def memberCount_def num_or_def
        split: option.splits if_splits)
qed

lemma reachable_count_nonneg:
  assumes "run (init T) evs = Some st"
  shows "0 \<le> memberCount st code"
proof -
  have "\<forall>code. 0 \<le> memberCount st code"
  proof (rule run_invariant [OF assms])
    show "\<forall>code. 0 \<le> memberCount (init T) code"
      by (simp add: init_def memberCount_def num_or_def)
  next
    fix ev s s' outs
    assume "\<forall>code. 0 \<le> memberCount s code" and "step ev s = Some (s', outs)"
    then show "\<forall>code. 0 \<le> memberCount s' code"
      by (rule step_count_nonneg [rotated])
  qed
  then show ?thesis by simp
qed

text \<open>As long as no socket joins a second time, the counts are exact.\<close>

lemma finite_attached: "finite (dom (sockets st)) \<Longrightarrow> finite (attached st code)"
  by (rule finite_subset [of _ "dom (sockets st)"]) (auto simp: attached_def)

lemma counted_join:
  assumes "counted st" and "sockets st c = Some s" and "teamCode s = None"
    and "join_room e c tc nm st = (st', outs)"
  shows "counted st'"
proof (cases "\<not> truthy tc \<or> \<not> truthy nm \<or> teams st (toUpperCase (trim (the tc))) = None")
  case True
  with assms(2,4) have "st' = st"
    by (auto simp: join_room_def Let_def split: if_splits)
  with assms(1) show ?thesis by simp
next
  case False
  define code0 where "code0 = toUpperCase (trim (the tc))"
  define s' where "s' = s\<lparr>rooms := insert code0 (rooms s), teamCode := Some code0,
      userName := Some (take 50 (trim (the nm)))\<rparr>"
  from False have team: "teams st code0 \<noteq> None" and tr: "truthy tc" "truthy nm"
    by (simp_all add: code0_def)
  from join_room_ok [OF assms(2) tr code0_def team refl, of e] assms(4)
  have st': "st' = st\<lparr>sockets := (sockets st)(c \<mapsto> s'),
        roomUserCounts := (roomUserCounts st)(code0 \<mapsto> num_or (roomUserCounts st code0) 0 + 1),
        roomMessages := (roomMessages st)(code0 \<mapsto> room_log st code0 @
          [joinNotice e (take 50 (trim (the nm)))])\<rparr>"
    by (simp add: s'_def)
  from assms(1) have fin: "finite (dom (sockets st))" and noempty: "teams st [] = None"
    and codes: "\<forall>c s. sockets st c = Some s \<longrightarrow> teamCode s \<noteq> Some []"
    and cnt: "\<forall>code. memberCount st code = int (card (attached st code))"
    by (simp_all add: counted_def)
  from team noempty have ne: "code0 \<noteq> []" by auto
  have att: "attached st' code =
      (if code = code0 then insert c (attached st code) else attached st code)" for code
    using assms(2,3) by (auto simp: attached_def st' s'_def split: if_splits)
  have notin: "c \<notin> attached st code0"
    using assms(2,3) by (simp add: attached_def)
  have mc: "memberCount st' code =
      (if code = code0 then memberCount st code0 + 1 else memberCount st code)" for code
  proof -
    from cnt have "0 \<le> memberCount st code0" by simp
    then show ?thesis
      by (auto simp: st' memberCount_def num_or_def split: option.splits)
  qed
  have "finite (dom (sockets st'))"
    using fin by (simp add: st')
  moreover have "teams st' [] = None"
    using noempty by (simp add: st')
  moreover have "\<forall>c s. sockets st' c = Some s \<longrightarrow> teamCode s \<noteq> Some []"
    using codes ne by (auto simp: st' s'_def)
  moreover have "\<forall>code. memberCount st' code = int (card (attached st' code))"
  proof
    fix code
    show "memberCount st' code = int (card (attached st' code))"
    proof (cases "code = code0")
      case True
      with notin finite_attached [OF fin, of code0] cnt show ?thesis
        by (simp add: att mc)
    next
      case False
      with cnt show ?thesis by (simp add: att mc)
    qed
  qed
  ultimately show ?thesis by (simp add: counted_def)
qed

lemma disconnect_joined_frame:
  assumes "sockets st c = Some s" and "truthy (teamCode s)" and "code = the (teamCode s)"
    and "disconnect e c st = (st', outs)"
  shows "roomUserCounts st' =
           (roomUserCounts st)(code \<mapsto> max 0 (num_or (roomUserCounts st code) 1 - 1)) \<and>
         sockets st' = (sockets st)(c := None) \<and> teams st' = teams st"
  using assms by (auto simp: disconnect_def Let_def split: if_splits)

lemma counted_disconnect:
  assumes "counted st" and "disconnect e c st = (st', outs)"
  shows "counted st'"
proof (cases "sockets st c")
  case None
  with assms(2) have "st' = st" by (simp add: disconnect_def)
  with assms(1) show ?thesis by simp
next
  case (Some s)
  from assms(1) have fin: "finite (dom (sockets st))" and noempty: "teams st [] = None"
    and codes: "\<forall>c s. sockets st c = Some s \<longrightarrow> teamCode s \<noteq> Some []"
    and cnt: "\<forall>code. memberCount st code = int (card (attached st code))"
    by (simp_all add: counted_def)
  show ?thesis
  proof (cases "teamCode s")
    case None
    with Some assms(2) have st': "st' = st\<lparr>sockets := (sockets st)(c := None)\<rparr>"
      by (simp add: disconnect_def Let_def truthy_def)
    have "attached st' code = attached st code" for code
      using Some None by (auto simp: attached_def st' split: if_splits)
    moreover have "memberCount st' code = memberCount st code" for code
      by (simp add: st' memberCount_def)
    ultimately show ?thesis
      using fin noempty codes cnt by (auto simp: counted_def st' split: if_splits)
  next
    case (Some code0)
    note tc = Some
    from codes \<open>sockets st c = Some s\<close> tc have ne: "code0 \<noteq> []" by auto
    with tc have tr: "truthy (teamCode s)" and the_tc: "code0 = the (teamCode s)"
      by (simp_all add: truthy_def)
    define n where "n = max 0 (num_or (roomUserCounts st code0) 1 - 1)"
    have cin: "c \<in> attached st code0"
      using \<open>sockets st c = Some s\<close> tc by (simp add: attached_def)
    with finite_attached [OF fin, of code0] have pos: "0 < card (attached st code0)"
      by (auto simp: card_gt_0_iff)
    with cnt have mpos: "0 < memberCount st code0" by simp
    then have n_eq: "n = memberCount st code0 - 1"
      by (auto simp: n_def memberCount_def num_or_def split: option.splits if_splits)
    from disconnect_joined_frame [OF \<open>sockets st c = Some s\<close> tr the_tc assms(2)]
    have st_counts: "roomUserCounts st' = (roomUserCounts st)(code0 \<mapsto> n)"
      and st_socks: "sockets st' = (sockets st)(c := None)"
      and st_teams: "teams st' = teams st"
      by (simp_all add: n_def)
    have att: "attached st' code =
        (if code = code0 then attached st code - {c} else attached st code)" for code
      using \<open>sockets st c = Some s\<close> tc
      by (auto simp: attached_def st_socks split: if_splits)
    have mc: "memberCount st' code =
        (if code = code0 then memberCount st code0 - 1 else memberCount st code)" for code
      using mpos by (auto simp: memberCount_def st_counts n_eq num_or_def)
    have "\<forall>code. memberCount st' code = int (card (attached st' code))"
    proof
      fix code
      show "memberCount st' code = int (card (attached st' code))"
      proof (cases "code = code0")
        case True
        with cin pos finite_attached [OF fin, of code0] cnt show ?thesis
          by (simp add: att mc card_Diff_singleton of_nat_diff)
      next
        case False
        with cnt show ?thesis by (simp add: att mc)
      qed
    qed
    moreover have "finite (dom (sockets st'))"
      using fin by (simp add: st_socks)
    moreover have "\<forall>c s. sockets st' c = Some s \<longrightarrow> teamCode s \<noteq> Some []"
      using codes by (auto simp: st_socks split: if_splits)
    ultimately show ?thesis
      using noempty by (simp add: counted_def st_teams)
  qed
qed

lemma counted_frame:
  assumes "counted st" and "sockets st' = sockets st"
    and "roomUserCounts st' = roomUserCounts st" and "teams st' [] = None"
  shows "counted st'"
  using assms by (simp add: counted_def memberCount_def attached_def)

lemma counted_step:
  assumes "counted st" and "fresh_join ev st" and "step ev st = Some (st', outs)"
  shows "counted st'"
proof (cases ev)
  case (CreateTeam rs now customCode)
  with assms(3) obtain r where cr: "create_team rs now customCode st = Some (r, st')"
    by auto
  show ?thesis
  proof (cases r)
    case (Created code)
    from create_team_Created [OF cr [unfolded Created]]
    have "code \<noteq> []" and "st' = st\<lparr>teams := (teams st)(code \<mapsto> \<lparr>createdAt = now\<rparr>)\<rparr>"
      by (auto split: if_splits)
    with assms(1) show ?thesis
      by (intro counted_frame [OF assms(1)]) (auto simp: counted_def)
  next
    case Conflict
    with cr have "st' = st"
      by (auto simp: create_team_def Let_def split: if_splits option.splits prod.splits)
    with assms(1) show ?thesis by simp
  qed
next
  case (Connect c)
  show ?thesis
  proof (cases "sockets st c")
    case None
    with Connect assms(3) have st': "st' = st\<lparr>sockets := (sockets st)(c \<mapsto>
        \<lparr>rooms = {}, teamCode = None, userName = None\<rparr>)\<rparr>"
      by (simp add: connect_def)
    have "attached st' code = attached st code" for code
      using None by (auto simp: attached_def st' split: if_splits)
    moreover have "memberCount st' code = memberCount st code" for code
      by (simp add: st' memberCount_def)
    ultimately show ?thesis
      using assms(1) by (auto simp: counted_def st' split: if_splits)
  next
    case (Some s)
    with Connect assms(3) have "st' = st" by (simp add: connect_def)
    with assms(1) show ?thesis by simp
  qed
next
  case (JoinRoom e c tc nm)
  with assms(3) have j: "join_room e c tc nm st = (st', outs)" by simp
  show ?thesis
  proof (cases "sockets st c")
    case None
    with j have "st' = st" by (simp add: join_room_def)
    with assms(1) show ?thesis by simp
  next
    case (Some s)
    with assms(2) JoinRoom have "teamCode s = None" by simp
    from counted_join [OF assms(1) Some this j] show ?thesis .
  qed
next
  case (SendMessage e c t)
  with assms(3) have "send_message e c t st = (st', outs)" by simp
  then have "sockets st' = sockets st \<and> roomUserCounts st' = roomUserCounts st \<and>
      teams st' = teams st"
    by (auto simp: send_message_def Let_def split: option.splits if_splits)
  with assms(1) show ?thesis
    by (intro counted_frame [OF assms(1)]) (auto simp: counted_def)
next
  case (DeleteMessage c i)
  with assms(3) have "delete_message c i st = (st', outs)" by simp
  then have "sockets st' = sockets st \<and> roomUserCounts st' = roomUserCounts st \<and>
      teams st' = teams st"
    by (auto simp: delete_message_def Let_def split: option.splits if_splits)
  with assms(1) show ?thesis
    by (intro counted_frame [OF assms(1)]) (auto simp: counted_def)
next
  case (Disconnect e c)
  with assms(3) have "disconnect e c st = (st', outs)" by simp
  from counted_disconnect [OF assms(1) this] show ?thesis .
qed

lemma counted_run:
  assumes "run st evs = Some st'" and "single_join st evs" and "counted st"
  shows "counted st'"
  using assms
proof (induction evs arbitrary: st)
  case Nil
  then show ?case by simp
next
  case (Cons ev evs)
  from Cons.prems(1) obtain s1 outs where s1: "step ev st = Some (s1, outs)"
    and rest: "run s1 evs = Some st'"
    by (auto split: option.splits)
  from Cons.prems(2) s1 have fj: "fresh_join ev st" and sj: "single_join s1 evs"
    by simp_all
  from counted_step [OF Cons.prems(3) fj s1] have "counted s1" .
  from Cons.IH [OF rest sj this] show ?case .
qed

lemma single_join_counts:
  assumes "run (init T) evs = Some st" and "single_join (init T) evs" and "T [] = None"
  shows "memberCount st code = int (card (attached st code))"
proof -
  from assms(3) have "counted (init T)"
    by (simp add: counted_def init_def memberCount_def num_or_def attached_def)
  from counted_run [OF assms(1,2) this] show ?thesis
    by (simp add: counted_def)
qed

text \<open>In such a run, when the only session attached to a room disconnects, the
  room's count comes out as zero.\<close>

lemma last_member_count_zero:
  assumes "run (init T) evs = Some st" and "single_join (init T) evs" and "T [] = None"
    and "sockets st c = Some s" and "teamCode s = Some code" and "attached st code = {c}"
  shows "memberCount (fst (disconnect e c st)) code = 0"
proof -
  from assms(3) have "counted (init T)"
    by (simp add: counted_def init_def memberCount_def num_or_def attached_def)
  from counted_run [OF assms(1,2) this] have c: "counted st" .
  with assms(4,5) have ne: "code \<noteq> []"
    by (auto simp: counted_def)
  with assms(5) have tr: "truthy (teamCode s)" and the_tc: "code = the (teamCode s)"
    by (simp_all add: truthy_def)
  from c assms(6) have one: "memberCount st code = 1"
    by (simp add: counted_def)
  obtain st' outs where d: "disconnect e c st = (st', outs)"
    by (cases "disconnect e c st")
  from disconnect_joined_frame [OF assms(4) tr the_tc d] one
  have "roomUserCounts st' code = Some 0"
    by (auto simp: memberCount_def num_or_def split: option.splits if_splits)
  with d show ?thesis
    by (simp add: memberCount_def num_or_def)
qed

subsection \<open>What \<open>send-message\<close> does, case by case\<close>

lemma send_message_cases:
  assumes "sockets st c = Some s" and "txt = trim (if truthy t then the t else [])"
  shows "((\<not> truthy (teamCode s) \<or> \<not> truthy (userName s)) \<longrightarrow>
            send_message e c t st = (st, [Ack c (AckErr NotJoined)])) \<and>
         (truthy (teamCode s) \<and> truthy (userName s) \<and> txt = [] \<longrightarrow>
            send_message e c t st = (st, [Ack c (AckErr EmptyMessage)])) \<and>
         (truthy (teamCode s) \<and> truthy (userName s) \<and> txt \<noteq> [] \<longrightarrow>
            send_message e c t st =
              (st\<lparr>roomMessages := (roomMessages st)(the (teamCode s) \<mapsto>
                    room_log st (the (teamCode s)) @ [chat_msg e (the (userName s)) txt])\<rparr>,
               [ToRoom (the (teamCode s)) (Message (chat_msg e (the (userName s)) txt)),
                Ack c AckOk]))"
  using assms by (simp add: send_message_def Let_def)

subsection \<open>Who gets a room's broadcasts\<close>

lemma receives_ToRoom:
  "receives st c (ToRoom code ev) \<longleftrightarrow> (\<exists>s. sockets st c = Some s \<and> code \<in> rooms s)"
  by (simp split: option.splits)

text \<open>A socket is in the socket.io room of its team code, so every session attached
  to a room receives what is emitted to the room.\<close>

lemma step_in_room:
  assumes "step ev st = Some (st', outs)"
    and "\<forall>c s code. sockets st c = Some s \<and> teamCode s = Some code \<longrightarrow> code \<in> rooms s"
  shows "\<forall>c s code. sockets st' c = Some s \<and> teamCode s = Some code \<longrightarrow> code \<in> rooms s"
proof (cases ev)
  case (CreateTeam rs now customCode)
  with assms(1) obtain r where "create_team rs now customCode st = Some (r, st')"
    by auto
  then have "sockets st' = sockets st"
    by (auto simp: create_team_def Let_def split: if_splits option.splits prod.splits)
  with assms(2) show ?thesis by simp
next
  case (Connect c')
  with assms(1) have "sockets st' = sockets st \<or>
      sockets st' = (sockets st)(c' \<mapsto> \<lparr>rooms = {}, teamCode = None, userName = None\<rparr>)"
    by (auto simp: connect_def split: option.splits)
  with assms(2) show ?thesis by (auto split: if_splits)
next
  case (JoinRoom e c' tc nm)
  with assms(1) have j: "join_room e c' tc nm st = (st', outs)" by simp
  show ?thesis
  proof (cases "sockets st c'")
    case None
    with j have "st' = st" by (simp add: join_room_def)
    with assms(2) show ?thesis by simp
  next
    case (Some s0)
    show ?thesis
    proof (cases "\<not> truthy tc \<or> \<not> truthy nm \<or> teams st (toUpperCase (trim (the tc))) = None")
      case True
      with Some j have "st' = st"
        by (auto simp: join_room_def Let_def split: if_splits)
      with assms(2) show ?thesis by simp
    next
      case False
      then have "truthy tc" "truthy nm" "teams st (toUpperCase (trim (the tc))) \<noteq> None"
        by simp_all
      from join_room_ok [OF Some this(1,2) refl this(3) refl, of e] j
      have "sockets st' = (sockets st)(c' \<mapsto> s0\<lparr>rooms := insert (toUpperCase (trim (the tc))) (rooms s0),
          teamCode := Some (toUpperCase (trim (the tc))),
          userName := Some (take 50 (trim (the nm)))\<rparr>)"
        by auto
      with assms(2) show ?thesis by (auto split: if_splits)
    qed
  qed
next
  case (SendMessage e c' t)
  with assms(1) have "send_message e c' t st = (st', outs)" by simp
  then have "sockets st' = sockets st"
    by (auto simp: send_message_def Let_def split: option.splits if_splits)
  with assms(2) show ?thesis by simp
next
  case (DeleteMessage c' i)
  with assms(1) have "delete_message c' i st = (st', outs)" by simp
  then have "sockets st' = sockets st"
    by (auto simp: delete_message_def Let_def split: option.splits if_splits)
  with assms(2) show ?thesis by simp
next
  case (Disconnect e c')
  with assms(1) have "disconnect e c' st = (st', outs)" by simp
  then have "sockets st' = sockets st \<or> sockets st' = (sockets st)(c' := None)"
    by (auto simp: disconnect_def Let_def split: option.splits if_splits)
  with assms(2) show ?thesis by (auto split: if_splits)
qed

lemma reachable_in_room:
  assumes "run (init T) evs = Some st" and "sockets st c = Some s"
    and "teamCode s = Some code"
  shows "receives st c (ToRoom code ev)"
proof -
  have "\<forall>c s code. sockets st c = Some s \<and> teamCode s = Some code \<longrightarrow> code \<in> rooms s"
  proof (rule run_invariant [OF assms(1)])
    show "\<forall>c s code. sockets (init T) c = Some s \<and> teamCode s = Some code \<longrightarrow> code \<in> rooms s"
      by (simp add: init_def)
  next
    fix ev s s' outs
    assume "\<forall>c sa code. sockets s c = Some sa \<and> teamCode sa = Some code \<longrightarrow> code \<in> rooms sa"
      and "step ev s = Some (s', outs)"
    then show "\<forall>c sa code. sockets s' c = Some sa \<and> teamCode sa = Some code \<longrightarrow> code \<in> rooms sa"
      by (rule step_in_room [rotated])
  qed
  with assms(2,3) show ?thesis by (simp add: receives_ToRoom)
qed

subsection \<open>The last member leaves\<close>

text \<open>When no socket has joined twice, the last member's disconnect does what is
  expected of it: the log goes, the registry stays, and the next join to the code
  starts from an empty history.\<close>

lemma last_member_leaves:
  assumes "run (init T) evs = Some st" and "single_join (init T) evs" and "T [] = None"
    and "sockets st c = Some s" and "teamCode s = Some code" and "attached st code = {c}"
    and "teams st code = Some t"
    and "disconnect e c st = (st1, outs1)"
    and "sockets st1 c' = Some s'"
    and "truthy tc" and "truthy nm" and "toUpperCase (trim (the tc)) = code"
    and "join_room e' c' tc nm st1 = (st2, outs2)"
    and "notice = joinNotice e' (take 50 (trim (the nm)))"
  shows "roomMessages st1 code = None \<and> room_log st1 code = [] \<and> outs1 = [] \<and>
         teams st1 = teams st \<and>
         outs2 = [ToSocket c' (RoomHistory []), ToRoom code (Message notice), Ack c' AckOk] \<and>
         (\<forall>x\<in>set outs2. receives st2 c' x) \<and>
         room_log st2 code = [notice] \<and> memberCount st2 code = 1"
proof -
  from assms(3) have "counted (init T)"
    by (simp add: counted_def init_def memberCount_def num_or_def attached_def)
  from counted_run [OF assms(1,2) this] assms(4,5) have "code \<noteq> []"
    by (auto simp: counted_def)
  with assms(5) have tr: "truthy (teamCode s)" and the_tc: "code = the (teamCode s)"
    by (simp_all add: truthy_def)
  from last_member_count_zero [OF assms(1-6), of e] assms(8)
  have zero: "memberCount st1 code = 0"
    by simp
  from last_disconnect_clears_log
    [OF assms(4) tr the_tc assms(8) zero assms(7) assms(9-14)]
  show ?thesis .
qed

lemma st_twice_step:
  "step (JoinRoom env1 1 (Some ''room1'') (Some ''Ann'')) st_ann =
     Some (st_twice,
       [ToSocket 1 (RoomHistory [joinNotice env0 ''Ann'']),
        ToRoom ''ROOM1'' (Message (joinNotice env1 ''Ann'')), Ack 1 AckOk])"
  by (simp add: st_ann_def st_twice_def sock0_def ann_sock_def demo_teams_def
      handler_evals string_evals fun_upd_twist)

lemma attached_st_twice: "attached st_twice ''ROOM1'' = {1}"
  by (auto simp: attached_def st_twice_def ann_sock_def sock0_def split: if_splits)

lemma attached_st_left: "attached st_left ''ROOM1'' = {}"
  by (auto simp: attached_def st_left_def sock0_def split: if_splits)

text \<open>
  Claim C3 at a failing input. Connection 1 joins ROOM1 twice and is the only
  session attached to the room, whose count is 2. It disconnects: the count goes to
  1, not to zero, so the handler appends a leave notice and keeps the log, with no
  session left in the room. Connection 2 then joins ROOM1 and is sent a
  \<open>room-history\<close> of three messages.
\<close>

theorem last_member_log_kept_after_rejoin:
  "run (init demo_teams)
     ([Connect 1, Connect 2, JoinRoom env0 1 (Some '' room1'') (Some ''Ann '')] @
      [JoinRoom env1 1 (Some ''room1'') (Some ''Ann'')]) = Some st_twice \<and>
   attached st_twice ''ROOM1'' = {1} \<and> memberCount st_twice ''ROOM1'' = 2 \<and>
   step (Disconnect env2 1) st_twice =
     Some (st_left, [ToRoom ''ROOM1'' (Message (leaveNotice env2 (Some ''Ann'')))]) \<and>
   attached st_left ''ROOM1'' = {} \<and> memberCount st_left ''ROOM1'' = 1 \<and>
   room_log st_left ''ROOM1'' =
     [joinNotice env0 ''Ann'', joinNotice env1 ''Ann'', leaveNotice env2 (Some ''Ann'')] \<and>
   map_option snd (step (JoinRoom env2 2 (Some ''room1'') (Some ''Bob'')) st_left) =
     Some [ToSocket 2 (RoomHistory
             [joinNotice env0 ''Ann'', joinNotice env1 ''Ann'', leaveNotice env2 (Some ''Ann'')]),
           ToRoom ''ROOM1'' (Message (joinNotice env2 ''Bob'')), Ack 2 AckOk]"
proof -
  have "run st_ann [JoinRoom env1 1 (Some ''room1'') (Some ''Ann'')] = Some st_twice"
    using st_twice_step by simp
  with st_ann_reached have r1: "run (init demo_teams)
     ([Connect 1, Connect 2, JoinRoom env0 1 (Some '' room1'') (Some ''Ann '')] @
      [JoinRoom env1 1 (Some ''room1'') (Some ''Ann'')]) = Some st_twice"
    by (simp only: run_append option.case)
  have d: "step (Disconnect env2 1) st_twice =
     Some (st_left, [ToRoom ''ROOM1'' (Message (leaveNotice env2 (Some ''Ann'')))])"
    by (simp add: st_twice_def st_left_def ann_sock_def sock0_def handler_evals truthy_def
        fun_upd_twist)
  have j: "map_option snd (step (JoinRoom env2 2 (Some ''room1'') (Some ''Bob'')) st_left) =
     Some [ToSocket 2 (RoomHistory
             [joinNotice env0 ''Ann'', joinNotice env1 ''Ann'', leaveNotice env2 (Some ''Ann'')]),
           ToRoom ''ROOM1'' (Message (joinNotice env2 ''Bob'')), Ack 2 AckOk]"
    by (simp add: st_left_def sock0_def demo_teams_def handler_evals string_evals)
  have "memberCount st_twice ''ROOM1'' = 2" and "memberCount st_left ''ROOM1'' = 1"
    and "room_log st_left ''ROOM1'' =
     [joinNotice env0 ''Ann'', joinNotice env1 ''Ann'', leaveNotice env2 (Some ''Ann'')]"
    by (simp_all add: st_twice_def st_left_def memberCount_def num_or_def room_log_def)
  with r1 d j attached_st_twice attached_st_left show ?thesis by simp
qed

end
